theory Spec2Isabelle
  imports Complex_Main "HOL-Library.Multiset" "HOL-Library.Char_ord"
    "HOL-Library.List_Lexorder"
begin

section \<open>Python values and exceptions\<close>

text \<open>
  The scripts are Python. An exception that leaves a function is the left summand of
  its result (\<open>Inl e\<close>); a normal return is the right one.
\<close>

datatype exn = TypeError | KeyError | IndexError | ValueError | AttributeError
  | RuntimeError | RecursionError | OSError | SystemError

fun rbind :: "exn + 'a \<Rightarrow> ('a \<Rightarrow> exn + 'b) \<Rightarrow> exn + 'b" where
  "rbind (Inl e) f = Inl e"
| "rbind (Inr x) f = f x"

text \<open>
  What \<open>json.load\<close> and \<open>json.loads\<close> return. \<open>JNull\<close> is Python's \<open>None\<close>; an
  object is a \<open>dict\<close> with string keys, kept as an association list in insertion order
  (the decoder leaves no key twice); a float is a real number (NaN and the infinities
  are left out); a string is a list of 8-bit characters.
\<close>

datatype json = JNull | JBool bool | JInt int | JFloat real | JStr string
  | JArr "json list" | JObj "(string \<times> json) list"

text \<open>Truth value of an object, as \<open>if x\<close>, \<open>not x\<close> and \<open>x and y\<close> take it.\<close>

fun py_truthy :: "json \<Rightarrow> bool" where
  "py_truthy JNull = False"
| "py_truthy (JBool b) = b"
| "py_truthy (JInt i) = (i \<noteq> 0)"
| "py_truthy (JFloat r) = (r \<noteq> 0)"
| "py_truthy (JStr s) = (s \<noteq> [])"
| "py_truthy (JArr xs) = (xs \<noteq> [])"
| "py_truthy (JObj kvs) = (kvs \<noteq> [])"

fun py_num :: "json \<Rightarrow> real option" where
  "py_num (JBool b) = Some (if b then 1 else 0)"
| "py_num (JInt i) = Some (of_int i)"
| "py_num (JFloat r) = Some r"
| "py_num _ = None"

text \<open>Python's \<open>==\<close>: numbers and booleans compare by value, dicts as mappings.\<close>

fun py_eq :: "json \<Rightarrow> json \<Rightarrow> bool" where
  "py_eq JNull y = (y = JNull)"
| "py_eq (JStr s) y = (y = JStr s)"
| "py_eq (JArr xs) (JArr ys) = list_all2 py_eq xs ys"
| "py_eq (JArr xs) y = False"
| "py_eq (JObj a) (JObj b) =
     (length a = length b \<and>
      list_all (\<lambda>kv. case map_of b (fst kv) of None \<Rightarrow> False
                        | Some w \<Rightarrow> py_eq (snd kv) w) a)"
| "py_eq (JObj a) y = False"
| "py_eq x y = (py_num x \<noteq> None \<and> py_num x = py_num y)"

text \<open>\<open>p in s\<close> for two strings: \<open>p\<close> occurs in \<open>s\<close> as a contiguous piece.\<close>

fun contains_sub :: "string \<Rightarrow> string \<Rightarrow> bool" where
  "contains_sub p [] = (p = [])"
| "contains_sub p (c # cs) = (take (length p) (c # cs) = p \<or> contains_sub p cs)"

text \<open>
  \<open>x in c\<close>. A dict tests its keys and raises on an unhashable \<open>x\<close>; a list compares
  its elements with \<open>==\<close>; a string accepts only a string; anything else is not
  iterable.
\<close>

fun py_contains :: "json \<Rightarrow> json \<Rightarrow> exn + bool" where
  "py_contains (JStr k) (JObj kvs) = Inr (map_of kvs k \<noteq> None)"
| "py_contains (JArr xs) (JObj kvs) = Inl TypeError"
| "py_contains (JObj a) (JObj kvs) = Inl TypeError"
| "py_contains x (JObj kvs) = Inr False"
| "py_contains x (JArr ys) = Inr (list_ex (py_eq x) ys)"
| "py_contains (JStr p) (JStr s) = Inr (contains_sub p s)"
| "py_contains x (JStr s) = Inl TypeError"
| "py_contains x c = Inl TypeError"

text \<open>Indexing a sequence: negative indices count from the end.\<close>

definition seq_index :: "'a list \<Rightarrow> int \<Rightarrow> exn + 'a" where
  "seq_index xs i =
     (if 0 \<le> i \<and> i < int (length xs) then Inr (xs ! nat i)
      else if i < 0 \<and> - int (length xs) \<le> i then Inr (xs ! nat (int (length xs) + i))
      else Inl IndexError)"

text \<open>\<open>c[k]\<close>.\<close>

fun py_getitem :: "json \<Rightarrow> json \<Rightarrow> exn + json" where
  "py_getitem (JObj kvs) (JStr k) =
     (case map_of kvs k of None \<Rightarrow> Inl KeyError | Some v \<Rightarrow> Inr v)"
| "py_getitem (JObj kvs) (JArr xs) = Inl TypeError"
| "py_getitem (JObj kvs) (JObj a) = Inl TypeError"
| "py_getitem (JObj kvs) k = Inl KeyError"
| "py_getitem (JArr xs) (JInt i) = seq_index xs i"
| "py_getitem (JArr xs) (JBool b) = seq_index xs (if b then 1 else 0)"
| "py_getitem (JArr xs) k = Inl TypeError"
| "py_getitem (JStr s) (JInt i) = rbind (seq_index s i) (\<lambda>c. Inr (JStr [c]))"
| "py_getitem (JStr s) (JBool b) =
     rbind (seq_index s (if b then 1 else 0)) (\<lambda>c. Inr (JStr [c]))"
| "py_getitem (JStr s) k = Inl TypeError"
| "py_getitem c k = Inl TypeError"

text \<open>\<open>len(c)\<close>.\<close>

fun py_len :: "json \<Rightarrow> exn + nat" where
  "py_len (JStr s) = Inr (length s)"
| "py_len (JArr xs) = Inr (length xs)"
| "py_len (JObj kvs) = Inr (length kvs)"
| "py_len c = Inl TypeError"

text \<open>\<open>d.get(k, default)\<close>: only a dict has the method.\<close>

fun py_get :: "json \<Rightarrow> string \<Rightarrow> json \<Rightarrow> exn + json" where
  "py_get (JObj kvs) k d = (case map_of kvs k of None \<Rightarrow> Inr d | Some v \<Rightarrow> Inr v)"
| "py_get c k d = Inl AttributeError"

text \<open>
  \<open>d[k] = v\<close> on a dict: an existing key keeps its place and takes the new value, a new
  key goes to the end.
\<close>

fun dict_set :: "'k \<Rightarrow> 'v \<Rightarrow> ('k \<times> 'v) list \<Rightarrow> ('k \<times> 'v) list" where
  "dict_set k v [] = [(k, v)]"
| "dict_set k v (p # ps) = (if fst p = k then (k, v) # ps else p # dict_set k v ps)"

fun py_setitem :: "json \<Rightarrow> string \<Rightarrow> json \<Rightarrow> exn + json" where
  "py_setitem (JObj kvs) k v = Inr (JObj (dict_set k v kvs))"
| "py_setitem c k v = Inl TypeError"

definition is_digit :: "char \<Rightarrow> bool" where
  "is_digit c = (c \<in> set ''0123456789'')"

section \<open>Duration reconciliation (3combineAll.py, main, lines 75--96)\<close>

text \<open>
  The body of the pairing loop measures the two durations, takes their difference and
  chooses the video filter \<open>vf\<close>:
  \<^verbatim>\<open>
  diff  = a_dur - v_dur
  if diff > 0 and diff <= 4:
      factor = a_dur / v_dur
      vf = f"setpts={factor}*PTS"
  elif diff > 4:
      vf = f"tpad=stop_mode=clone:stop_duration={diff}"
  else:
      vf = "null"
  \<close>
  The three filters are the three constructors below: \<open>STRETCH f\<close> is
  \<open>setpts=f*PTS\<close>, \<open>FREEZE_PAD d\<close> is \<open>tpad=stop_mode=clone:stop_duration=d\<close>
  and \<open>NONE\<close> is \<open>null\<close>. Durations are real numbers here: the comparisons and the
  branch structure are those of the source, the rounding of binary floating point is
  not part of the model.
\<close>

datatype SyncDecision = NONE | STRETCH real | FREEZE_PAD real

definition plan :: "real \<Rightarrow> real \<Rightarrow> SyncDecision" where
  "plan a_dur v_dur =
     (let diff = a_dur - v_dur in
      if diff > 0 \<and> diff \<le> 4 then
        (let factor = a_dur / v_dur in STRETCH factor)
      else if diff > 4 then FREEZE_PAD diff
      else NONE)"

section \<open>Pairing narration and video files (3combineAll.py, lines 27--28, 44--46, 60--76)\<close>

text \<open>
  \<open>re.search\<close> tries the pattern at every position of the name, from the left, and
  returns the first match. A pattern is given here by its matcher at one position,
  which returns group 1. Without the MULTILINE flag, \<open>$\<close> holds at the end of the
  string and just before a newline that ends it. On 8-bit characters \<open>\d\<close> is a decimal
  digit \<open>0\<close>..\<open>9\<close>.
\<close>

fun re_search :: "(string \<Rightarrow> 'a option) \<Rightarrow> string \<Rightarrow> 'a option" where
  "re_search m [] = m []"
| "re_search m (c # cs) =
     (case m (c # cs) of Some g \<Rightarrow> Some g | None \<Rightarrow> re_search m cs)"

definition at_end :: "string \<Rightarrow> bool" where
  "at_end rest = (rest = [] \<or> rest = [CHR 0x0A])"

text \<open>\<open>wav_pat = re.compile(r"clip_(\d{4})_narration\.wav$")\<close>\<close>

definition wav_pat :: "string \<Rightarrow> string option" where
  "wav_pat s =
     (let g = take 4 (drop 5 s) in
      if take 5 s = ''clip_'' \<and> length g = 4 \<and> list_all is_digit g
         \<and> take 14 (drop 9 s) = ''_narration.wav'' \<and> at_end (drop 23 s)
      then Some g else None)"

text \<open>
  \<open>mp4_pat = re.compile(r"narrativegen_clip_(\d{4})__\d+\.mp4$")\<close>. The greedy
  \<open>\d+\<close> takes every digit that follows; giving one back would leave a digit where the
  pattern wants the dot, so there is nothing to backtrack to.
\<close>

definition mp4_pat :: "string \<Rightarrow> string option" where
  "mp4_pat s =
     (let g = take 4 (drop 18 s); r = drop 24 s; ds = takeWhile is_digit r;
          rest = dropWhile is_digit r in
      if take 18 s = ''narrativegen_clip_'' \<and> length g = 4 \<and> list_all is_digit g
         \<and> take 2 (drop 22 s) = ''__'' \<and> ds \<noteq> []
         \<and> take 4 rest = ''.mp4'' \<and> at_end (drop 4 rest)
      then Some g else None)"

text \<open>
  \<^verbatim>\<open>
  def index_from(fname: Path, pattern: re.Pattern) -> str|None:
      m = pattern.search(fname.name)
      return m.group(1) if m else None
  \<close>
  A file is given by its name in its directory.
\<close>

definition index_from :: "string \<Rightarrow> (string \<Rightarrow> string option) \<Rightarrow> string option" where
  "index_from fname pattern = re_search pattern fname"

text \<open>
  \<open>Path.glob("*.wav")\<close> over a directory listing: the names that end with the
  extension, in listing order.
\<close>

definition glob_ext :: "string \<Rightarrow> string list \<Rightarrow> string list" where
  "glob_ext ext names =
     filter (\<lambda>n. length ext \<le> length n \<and> drop (length n - length ext) n = ext) names"

text \<open>
  \<open>{index_from(p, pat): p for p in ...}\<close>: a dict filled in glob order, a later file
  with the same index replacing the earlier one. The key of a file that does not match
  is \<open>None\<close>.
\<close>

definition index_dict ::
  "(string \<Rightarrow> string option) \<Rightarrow> string list \<Rightarrow> (string option \<times> string) list" where
  "index_dict pat files = fold (\<lambda>p d. dict_set (index_from p pat) p d) files []"

text \<open>
  \<open>sorted\<close> on the common keys. Strings compare by code point; comparing \<open>None\<close> with a
  string raises TypeError, which any sort of two or more keys with \<open>None\<close> among them
  runs into; a single key is returned as it is.
\<close>

definition sorted_keys :: "string option list \<Rightarrow> exn + string option list" where
  "sorted_keys ks =
     (if None \<in> set ks \<and> 2 \<le> length ks then Inl TypeError
      else if None \<in> set ks then Inr ks
      else Inr (map Some (sort (map the ks))))"

text \<open>
  \<^verbatim>\<open>
  wavs = {index_from(p, wav_pat): p for p in sound_dir.glob("*.wav")}
  mp4s = {index_from(p, mp4_pat): p for p in video_dir.glob("*.mp4")}
  common = sorted(set(wavs) & set(mp4s))
  if not common:
      raise RuntimeError("No matching indices found!")
  for idx in common:
      wav_path = wavs[idx]
      mp4_path = mp4s[idx]
  \<close>
  The result lists, for every \<open>idx\<close> the loop visits, the index and the two files it
  merges.
\<close>

definition pairings ::
  "string list \<Rightarrow> string list \<Rightarrow> exn + (string option \<times> string \<times> string) list" where
  "pairings sound_dir video_dir =
     (let wavs = index_dict wav_pat (glob_ext ''.wav'' sound_dir);
          mp4s = index_dict mp4_pat (glob_ext ''.mp4'' video_dir);
          both = filter (\<lambda>k. map_of mp4s k \<noteq> None) (map fst wavs)
      in rbind (sorted_keys both) (\<lambda>common.
           if common = [] then Inl RuntimeError
           else Inr (map (\<lambda>idx. (idx, the (map_of wavs idx), the (map_of mp4s idx)))
                      common)))"

section \<open>Library calls on URIs (urllib.parse)\<close>

text \<open>
  \<open>urllib.parse.parse_qs(urllib.parse.urlparse(u).query)\<close> is a call into the standard
  library: it returns a dict from the names of the query parameters of \<open>u\<close> to the
  lists of their values, or it raises (ValueError on a URI it refuses). The resolver
  takes this call as a parameter, \<open>parse_query\<close>, so that what is proved of the
  resolver holds whatever the library returns or raises.
\<close>

type_synonym query_parser = "string \<Rightarrow> exn + (string \<times> string list) list"

text \<open>\<open>query_params.get(k, [d])[0]\<close>\<close>

definition qs_first :: "(string \<times> string list) list \<Rightarrow> string \<Rightarrow> json \<Rightarrow> exn + json" where
  "qs_first query_params k d =
     (case map_of query_params k of
        None \<Rightarrow> Inr d
      | Some [] \<Rightarrow> Inl IndexError
      | Some (v # vs) \<Rightarrow> Inr (JStr v))"

section \<open>The render job client (1justMP4Video.py, run_comfyui_video_generation)\<close>

definition POSITIVE_PROMPT_NODE_ID :: string where "POSITIVE_PROMPT_NODE_ID = ''6''"
definition KSAMPLER_NODE_ID :: string where "KSAMPLER_NODE_ID = ''3''"
definition EMPTY_LATENT_VIDEO_NODE_ID :: string where "EMPTY_LATENT_VIDEO_NODE_ID = ''40''"
definition SAVE_MP4_NODE_ID :: string where "SAVE_MP4_NODE_ID = ''52''"
definition DEFAULT_VIDEO_WIDTH :: int where "DEFAULT_VIDEO_WIDTH = 832"
definition DEFAULT_VIDEO_HEIGHT :: int where "DEFAULT_VIDEO_HEIGHT = 480"
definition DEFAULT_VIDEO_FRAMES :: int where "DEFAULT_VIDEO_FRAMES = 65"
definition max_poll_attempts :: nat where "max_poll_attempts = 360"

text \<open>
  Every status string of the script: those \<open>run_comfyui_video_generation\<close> returns and
  those the stage 2 loop writes into the manifest.
\<close>

datatype status =
    ERROR_WORKFLOW_NOT_LOADED
  | ERROR_SAVE_MP4_NODE_MISSING_IN_WORKFLOW
  | ERROR_QUEUE_FAILED
  | SUCCESS
  | ERROR_POTENTIAL_KEY_LACKS_FILENAME
  | ERROR_NO_USABLE_KEY_IN_OUTPUT_MP4
  | ERROR_SAVE_NODE_NOT_IN_OUTPUTS
  | ERROR_TIMEOUT
  | SKIPPED_NO_PROMPT
  | SUCCESS_MP4_DOWNLOADED
  | ERROR_MP4_DOWNLOAD_FAILED
  | ERROR_SUCCESS_NO_FILEDATA

text \<open>
  The dict the function returns: \<open>{"status": s}\<close> is \<open>GenResult s JNull\<close> (so that
  \<open>.get("data")\<close> is \<open>None\<close>) and \<open>{"status": "SUCCESS", "data": d}\<close> is
  \<open>GenResult SUCCESS d\<close>.
\<close>

datatype gen_result = GenResult status json

fun result_status :: "gen_result \<Rightarrow> status" where
  "result_status (GenResult s d) = s"

fun result_data :: "gen_result \<Rightarrow> json" where
  "result_data (GenResult s d) = d"

subsection \<open>Finding the file record in the output of the save node (lines 207--247)\<close>

text \<open>\<open>k in d and len(d[k]) > 0\<close>\<close>

definition key_nonempty :: "string \<Rightarrow> json \<Rightarrow> exn + bool" where
  "key_nonempty k d =
     rbind (py_contains (JStr k) d) (\<lambda>present.
       if \<not> present then Inr False
       else rbind (py_getitem d (JStr k)) (\<lambda>v.
            rbind (py_len v) (\<lambda>n. Inr (n > 0))))"

text \<open>\<open>d[k][0]\<close>\<close>

definition first_of :: "string \<Rightarrow> json \<Rightarrow> exn + json" where
  "first_of k d = rbind (py_getitem d (JStr k)) (\<lambda>l. py_getitem l (JInt 0))"

text \<open>
  The branch of the key \<open>uris\<close> (lines 223--238): a string is parsed only when it
  contains \<open>filename=\<close>, and an exception of the parser leaves the function; a dict is
  taken as it is; anything else leaves \<open>found_file_info\<close> at \<open>None\<close>.
\<close>

definition from_uri :: "query_parser \<Rightarrow> json \<Rightarrow> exn + json" where
  "from_uri parse_query uri_data =
     (case uri_data of
        JStr u \<Rightarrow>
          if contains_sub ''filename='' u then
            rbind (parse_query u) (\<lambda>query_params.
            rbind (qs_first query_params ''filename'' JNull) (\<lambda>filename.
            rbind (qs_first query_params ''subfolder'' (JStr [])) (\<lambda>subfolder.
            rbind (qs_first query_params ''type'' (JStr ''output'')) (\<lambda>file_type.
              Inr (JObj [(''filename'', filename), (''subfolder'', subfolder),
                         (''type'', file_type)])))))
          else Inr JNull
      | JObj kvs \<Rightarrow> Inr (JObj kvs)
      | _ \<Rightarrow> Inr JNull)"

text \<open>
  The \<open>if\<close>/\<open>elif\<close> chain over the candidate keys: the value of \<open>found_file_info\<close>
  after it, \<open>JNull\<close> when no branch sets it.
\<close>

definition find_file_info :: "query_parser \<Rightarrow> json \<Rightarrow> exn + json" where
  "find_file_info parse_query node_output_data =
     rbind (key_nonempty ''videos'' node_output_data) (\<lambda>b1.
       if b1 then first_of ''videos'' node_output_data
       else rbind (key_nonempty ''files'' node_output_data) (\<lambda>b2.
         if b2 then first_of ''files'' node_output_data
         else rbind (key_nonempty ''uris'' node_output_data) (\<lambda>b3.
           if b3 then rbind (first_of ''uris'' node_output_data) (from_uri parse_query)
           else rbind (key_nonempty ''gifs'' node_output_data) (\<lambda>b4.
             if b4 then first_of ''gifs'' node_output_data
             else rbind (key_nonempty ''images'' node_output_data) (\<lambda>b5.
               if b5 then first_of ''images'' node_output_data
               else Inr JNull)))))"

text \<open>\<open>found_file_info and "filename" in found_file_info and found_file_info["filename"]\<close>\<close>

definition has_filename :: "json \<Rightarrow> exn + bool" where
  "has_filename f =
     (if \<not> py_truthy f then Inr False
      else rbind (py_contains (JStr ''filename'') f) (\<lambda>present.
        if \<not> present then Inr False
        else rbind (py_getitem f (JStr ''filename'')) (\<lambda>v. Inr (py_truthy v))))"

text \<open>Lines 252--257: the defaults of \<open>type\<close> and \<open>subfolder\<close>.\<close>

definition fill_defaults :: "json \<Rightarrow> exn + json" where
  "fill_defaults f =
     rbind (py_contains (JStr ''type'') f) (\<lambda>has_type.
     rbind (if has_type
            then rbind (py_getitem f (JStr ''type'')) (\<lambda>t. Inr (\<not> py_truthy t))
            else Inr True) (\<lambda>no_type.
     rbind (if no_type then py_setitem f ''type'' (JStr ''output'') else Inr f) (\<lambda>f1.
     rbind (py_contains (JStr ''subfolder'') f1) (\<lambda>has_sub.
       if \<not> has_sub then py_setitem f1 ''subfolder'' (JStr []) else Inr f1))))"

text \<open>Lines 207--265: what the function returns once the save node is in the outputs.\<close>

definition resolve :: "query_parser \<Rightarrow> json \<Rightarrow> exn + gen_result" where
  "resolve parse_query node_output_data =
     rbind (find_file_info parse_query node_output_data) (\<lambda>found_file_info.
     rbind (has_filename found_file_info) (\<lambda>ok.
       if ok then
         rbind (fill_defaults found_file_info) (\<lambda>f. Inr (GenResult SUCCESS f))
       else if py_truthy found_file_info then
         Inr (GenResult ERROR_POTENTIAL_KEY_LACKS_FILENAME JNull)
       else Inr (GenResult ERROR_NO_USABLE_KEY_IN_OUTPUT_MP4 JNull)))"

subsection \<open>The polling loop (lines 193--277)\<close>

text \<open>
  The status line printed on every sixth poll while the job is running (lines
  271--274): printing has no effect on the result, but each \<open>.get\<close> needs a dict.
\<close>

definition print_status :: "json \<Rightarrow> exn + unit" where
  "print_status prompt_history =
     rbind (py_get prompt_history ''status'' (JObj [])) (\<lambda>s1.
     rbind (py_get s1 ''status_str'' (JStr ''Polling...'')) (\<lambda>status_str.
     rbind (py_get prompt_history ''status'' (JObj [])) (\<lambda>s2.
     rbind (py_get s2 ''exec_info'' (JObj [])) (\<lambda>ei.
     rbind (py_get ei ''queue_remaining'' (JInt 0)) (\<lambda>q_rem. Inr ())))))"

text \<open>
  One pass of the loop body, on the answer of \<open>comfy_get_history\<close> (\<open>None\<close> when the
  request failed): \<open>Some r\<close> when the function returns \<open>r\<close>, \<open>None\<close> when the loop goes on.
\<close>

definition poll_step ::
  "query_parser \<Rightarrow> json \<Rightarrow> nat \<Rightarrow> json option \<Rightarrow> exn + gen_result option" where
  "poll_step parse_query prompt_id attempt history =
     (case history of
        None \<Rightarrow> Inr None
      | Some h \<Rightarrow>
          if \<not> py_truthy h then Inr None
          else rbind (py_contains prompt_id h) (\<lambda>known.
            if \<not> known then Inr None
            else rbind (py_getitem h prompt_id) (\<lambda>prompt_history.
              rbind (py_contains (JStr ''outputs'') prompt_history) (\<lambda>has_outputs.
                if has_outputs then
                  rbind (py_getitem prompt_history (JStr ''outputs'')) (\<lambda>outputs.
                  rbind (py_contains (JStr SAVE_MP4_NODE_ID) outputs) (\<lambda>has_node.
                    if has_node then
                      rbind (py_getitem outputs (JStr SAVE_MP4_NODE_ID)) (\<lambda>node_output_data.
                      rbind (resolve parse_query node_output_data) (\<lambda>r. Inr (Some r)))
                    else Inr (Some (GenResult ERROR_SAVE_NODE_NOT_IN_OUTPUTS JNull))))
                else if attempt mod 6 = 0 then
                  rbind (print_status prompt_history) (\<lambda>u. Inr None)
                else Inr None))))"

text \<open>
  \<open>for attempt in range(max_poll_attempts)\<close>, then \<open>return {"status": "ERROR_TIMEOUT"}\<close>.
  \<open>history attempt\<close> is the answer to the request of that pass; the last argument
  counts the passes that are left.
\<close>

fun poll_loop ::
  "query_parser \<Rightarrow> json \<Rightarrow> (nat \<Rightarrow> json option) \<Rightarrow> nat \<Rightarrow> nat \<Rightarrow> exn + gen_result" where
  "poll_loop parse_query prompt_id history attempt 0 = Inr (GenResult ERROR_TIMEOUT JNull)"
| "poll_loop parse_query prompt_id history attempt (Suc n) =
     (case poll_step parse_query prompt_id attempt (history attempt) of
        Inl e \<Rightarrow> Inl e
      | Inr (Some r) \<Rightarrow> Inr r
      | Inr None \<Rightarrow> poll_loop parse_query prompt_id history (Suc attempt) n)"

text \<open>
  Lines 184--277, from the answer of \<open>comfy_queue_prompt\<close> (\<open>None\<close> when the request
  failed) on.
\<close>

definition poll_queued ::
  "query_parser \<Rightarrow> json option \<Rightarrow> (nat \<Rightarrow> json option) \<Rightarrow> exn + gen_result" where
  "poll_queued parse_query queued_data history =
     (case queued_data of
        None \<Rightarrow> Inr (GenResult ERROR_QUEUE_FAILED JNull)
      | Some q \<Rightarrow>
          if \<not> py_truthy q then Inr (GenResult ERROR_QUEUE_FAILED JNull)
          else rbind (py_contains (JStr ''prompt_id'') q) (\<lambda>has_id.
            if \<not> has_id then Inr (GenResult ERROR_QUEUE_FAILED JNull)
            else rbind (py_getitem q (JStr ''prompt_id'')) (\<lambda>prompt_id.
              poll_loop parse_query prompt_id history 0 max_poll_attempts)))"

section \<open>Mutable objects: the workflow template and its copies\<close>

text \<open>
  The workflow is a tree of dicts and lists that the script edits in place, so its
  objects live in a heap: a Python value is an immutable leaf or a reference to a
  container, and a reference is the position of the container in the heap. New
  containers are put at the end, so creating one changes no position in use.
\<close>

datatype pyval = VNull | VBool bool | VInt int | VFloat real | VStr string | VRef nat

datatype pyobj = ODict "(string \<times> pyval) list" | OList "pyval list"

type_synonym heap = "pyobj list"

definition heap_get :: "heap \<Rightarrow> nat \<Rightarrow> pyobj option" where
  "heap_get h a = (if a < length h then Some (h ! a) else None)"

fun obj_vals :: "pyobj \<Rightarrow> pyval list" where
  "obj_vals (ODict fields) = map snd fields"
| "obj_vals (OList xs) = xs"

text \<open>
  \<open>json.load\<close>, and any decoded value that becomes part of a heap object: the
  containers of the tree are created, those inside a container before it.
\<close>

fun alloc :: "json \<Rightarrow> heap \<Rightarrow> pyval \<times> heap"
  and alloc_list :: "json list \<Rightarrow> heap \<Rightarrow> pyval list \<times> heap"
  and alloc_fields :: "(string \<times> json) list \<Rightarrow> heap \<Rightarrow> (string \<times> pyval) list \<times> heap"
where
  "alloc JNull h = (VNull, h)"
| "alloc (JBool b) h = (VBool b, h)"
| "alloc (JInt i) h = (VInt i, h)"
| "alloc (JFloat r) h = (VFloat r, h)"
| "alloc (JStr s) h = (VStr s, h)"
| "alloc (JArr xs) h =
     (case alloc_list xs h of (vs, h1) \<Rightarrow> (VRef (length h1), h1 @ [OList vs]))"
| "alloc (JObj kvs) h =
     (case alloc_fields kvs h of (fields, h1) \<Rightarrow> (VRef (length h1), h1 @ [ODict fields]))"
| "alloc_list [] h = ([], h)"
| "alloc_list (x # xs) h =
     (case alloc x h of (v, h1) \<Rightarrow>
        (case alloc_list xs h1 of (vs, h2) \<Rightarrow> (v # vs, h2)))"
| "alloc_fields [] h = ([], h)"
| "alloc_fields (kv # kvs) h =
     (case alloc (snd kv) h of (v, h1) \<Rightarrow>
        (case alloc_fields kvs h1 of (fields, h2) \<Rightarrow> ((fst kv, v) # fields, h2)))"

text \<open>
  \<open>copy.deepcopy\<close>: a leaf is returned as it is; a container is copied element by
  element into a new container. The first argument bounds the depth of nesting the copy
  follows: beyond it the copy raises RecursionError, as Python's recursive copy does on
  a structure nested too deeply. A reference to nothing, which no Python program can
  hold, is answered with SystemError. The result comes with the heap after the copy.
  (The copy keeps no memo of the objects it has seen: a container reached twice is
  copied twice. A decoded JSON document has no such container.)
\<close>

fun copy_val :: "nat \<Rightarrow> heap \<Rightarrow> pyval \<Rightarrow> (exn + pyval) \<times> heap"
  and copy_vals :: "nat \<Rightarrow> heap \<Rightarrow> pyval list \<Rightarrow> (exn + pyval list) \<times> heap"
where
  "copy_val 0 h (VRef a) = (Inl RecursionError, h)"
| "copy_val (Suc n) h (VRef a) =
     (case heap_get h a of
        None \<Rightarrow> (Inl SystemError, h)
      | Some (ODict fields) \<Rightarrow>
          (case copy_vals n h (map snd fields) of
             (Inl e, h1) \<Rightarrow> (Inl e, h1)
           | (Inr vs, h1) \<Rightarrow> (Inr (VRef (length h1)), h1 @ [ODict (zip (map fst fields) vs)]))
      | Some (OList xs) \<Rightarrow>
          (case copy_vals n h xs of
             (Inl e, h1) \<Rightarrow> (Inl e, h1)
           | (Inr vs, h1) \<Rightarrow> (Inr (VRef (length h1)), h1 @ [OList vs])))"
| "copy_val n h v = (Inr v, h)"
| "copy_vals n h [] = (Inr [], h)"
| "copy_vals n h (v # vs) =
     (case copy_val n h v of
        (Inl e, h1) \<Rightarrow> (Inl e, h1)
      | (Inr v', h1) \<Rightarrow>
          (case copy_vals n h1 vs of
             (Inl e, h2) \<Rightarrow> (Inl e, h2)
           | (Inr vs', h2) \<Rightarrow> (Inr (v' # vs'), h2)))"

text \<open>
  A chain of containers nested in each other without a cycle is no longer than the
  heap, so the length of the heap is depth enough for every structure without one.
\<close>

definition deepcopy :: "heap \<Rightarrow> pyval \<Rightarrow> (exn + pyval) \<times> heap" where
  "deepcopy h v = copy_val (length h) h v"

text \<open>
  \<open>json.dumps\<close>: the tree a value stands for. The encoder refuses a structure that
  contains itself (ValueError); the depth bound plays that part.
\<close>

fun dump :: "nat \<Rightarrow> heap \<Rightarrow> pyval \<Rightarrow> exn + json"
  and dump_list :: "nat \<Rightarrow> heap \<Rightarrow> pyval list \<Rightarrow> exn + json list"
  and dump_fields :: "nat \<Rightarrow> heap \<Rightarrow> (string \<times> pyval) list \<Rightarrow> exn + (string \<times> json) list"
where
  "dump n h VNull = Inr JNull"
| "dump n h (VBool b) = Inr (JBool b)"
| "dump n h (VInt i) = Inr (JInt i)"
| "dump n h (VFloat r) = Inr (JFloat r)"
| "dump n h (VStr s) = Inr (JStr s)"
| "dump 0 h (VRef a) = Inl ValueError"
| "dump (Suc n) h (VRef a) =
     (case heap_get h a of
        None \<Rightarrow> Inl SystemError
      | Some (ODict fields) \<Rightarrow>
          (case dump_fields n h fields of Inl e \<Rightarrow> Inl e | Inr kvs \<Rightarrow> Inr (JObj kvs))
      | Some (OList xs) \<Rightarrow>
          (case dump_list n h xs of Inl e \<Rightarrow> Inl e | Inr js \<Rightarrow> Inr (JArr js)))"
| "dump_list n h [] = Inr []"
| "dump_list n h (v # vs) =
     (case dump n h v of
        Inl e \<Rightarrow> Inl e
      | Inr j \<Rightarrow> (case dump_list n h vs of Inl e \<Rightarrow> Inl e | Inr js \<Rightarrow> Inr (j # js)))"
| "dump_fields n h [] = Inr []"
| "dump_fields n h (kv # kvs) =
     (case dump n h (snd kv) of
        Inl e \<Rightarrow> Inl e
      | Inr j \<Rightarrow>
          (case dump_fields n h kvs of Inl e \<Rightarrow> Inl e | Inr js \<Rightarrow> Inr ((fst kv, j) # js)))"

text \<open>Truth value, \<open>k in v\<close>, \<open>v[k]\<close> and \<open>v[k] = x\<close> for a string \<open>k\<close>, on heap values.\<close>

definition v_truthy :: "heap \<Rightarrow> pyval \<Rightarrow> bool" where
  "v_truthy h v =
     (case v of
        VNull \<Rightarrow> False | VBool b \<Rightarrow> b | VInt i \<Rightarrow> i \<noteq> 0 | VFloat r \<Rightarrow> r \<noteq> 0
      | VStr s \<Rightarrow> s \<noteq> []
      | VRef a \<Rightarrow> (case heap_get h a of
                      None \<Rightarrow> True
                    | Some (ODict fields) \<Rightarrow> fields \<noteq> []
                    | Some (OList xs) \<Rightarrow> xs \<noteq> []))"

definition v_contains :: "string \<Rightarrow> heap \<Rightarrow> pyval \<Rightarrow> exn + bool" where
  "v_contains k h v =
     (case v of
        VStr s \<Rightarrow> Inr (contains_sub k s)
      | VRef a \<Rightarrow> (case heap_get h a of
                      None \<Rightarrow> Inl SystemError
                    | Some (ODict fields) \<Rightarrow> Inr (map_of fields k \<noteq> None)
                    | Some (OList xs) \<Rightarrow> Inr (VStr k \<in> set xs))
      | _ \<Rightarrow> Inl TypeError)"

definition v_getitem :: "heap \<Rightarrow> pyval \<Rightarrow> string \<Rightarrow> exn + pyval" where
  "v_getitem h v k =
     (case v of
        VRef a \<Rightarrow> (case heap_get h a of
                      None \<Rightarrow> Inl SystemError
                    | Some (ODict fields) \<Rightarrow>
                        (case map_of fields k of None \<Rightarrow> Inl KeyError | Some x \<Rightarrow> Inr x)
                    | Some (OList xs) \<Rightarrow> Inl TypeError)
      | _ \<Rightarrow> Inl TypeError)"

definition v_setitem :: "heap \<Rightarrow> pyval \<Rightarrow> string \<Rightarrow> pyval \<Rightarrow> exn + heap" where
  "v_setitem h v k x =
     (case v of
        VRef a \<Rightarrow> (case heap_get h a of
                      None \<Rightarrow> Inl SystemError
                    | Some (ODict fields) \<Rightarrow> Inr (h[a := ODict (dict_set k x fields)])
                    | Some (OList xs) \<Rightarrow> Inl TypeError)
      | _ \<Rightarrow> Inl TypeError)"

section \<open>Conversions of the item fields\<close>

definition is_space :: "char \<Rightarrow> bool" where
  "is_space c = (c \<in> set [CHR '' '', CHR 0x09, CHR 0x0A, CHR 0x0B, CHR 0x0C, CHR 0x0D,
                          CHR 0x1C, CHR 0x1D, CHR 0x1E, CHR 0x1F])"

definition digits_value :: "string \<Rightarrow> nat" where
  "digits_value ds = foldl (\<lambda>n d. 10 * n + (of_char d - 48)) 0 ds"

text \<open>
  \<open>int(s)\<close> for a string: white space around, an optional sign, decimal digits with
  single underscores allowed between them.
\<close>

definition int_of_str :: "string \<Rightarrow> exn + int" where
  "int_of_str s =
     (let t = rev (dropWhile is_space (rev (dropWhile is_space s)));
          neg = (t \<noteq> [] \<and> hd t = CHR ''-'');
          body = (if t \<noteq> [] \<and> (hd t = CHR ''-'' \<or> hd t = CHR ''+'') then tl t else t)
      in if body \<noteq> [] \<and> is_digit (hd body) \<and> is_digit (last body)
            \<and> list_all (\<lambda>c. is_digit c \<or> c = CHR ''_'') body
            \<and> \<not> contains_sub ''__'' body
         then Inr ((if neg then - 1 else 1) * int (digits_value (filter is_digit body)))
         else Inl ValueError)"

text \<open>\<open>int(x)\<close>: a float is cut towards zero.\<close>

fun py_int :: "json \<Rightarrow> exn + int" where
  "py_int (JInt i) = Inr i"
| "py_int (JBool b) = Inr (if b then 1 else 0)"
| "py_int (JFloat r) = Inr (if 0 \<le> r then \<lfloor>r\<rfloor> else \<lceil>r\<rceil>)"
| "py_int (JStr s) = int_of_str s"
| "py_int x = Inl TypeError"

fun digits :: "nat \<Rightarrow> string" where
  "digits n = (if n < 10 then [char_of (48 + n)]
               else digits (n div 10) @ [char_of (48 + n mod 10)])"

text \<open>
  \<open>f"{x:04d}"\<close>: an integer (or a bool) padded with zeros to four characters, the sign
  counted; a float or a string makes the format raise ValueError, anything else
  TypeError.
\<close>

definition zero_pad :: "nat \<Rightarrow> string \<Rightarrow> string" where
  "zero_pad w s = replicate (w - length s) CHR ''0'' @ s"

fun format_04d :: "json \<Rightarrow> exn + string" where
  "format_04d (JInt i) =
     Inr (if i < 0 then CHR ''-'' # zero_pad 3 (digits (nat (- i)))
          else zero_pad 4 (digits (nat i)))"
| "format_04d (JBool b) = Inr (if b then ''0001'' else ''0000'')"
| "format_04d (JFloat r) = Inl ValueError"
| "format_04d (JStr s) = Inl ValueError"
| "format_04d x = Inl TypeError"

text \<open>\<open>s.lower()\<close> on the letters \<open>A\<close>..\<open>Z\<close>.\<close>

definition lower :: "string \<Rightarrow> string" where
  "lower s = map (\<lambda>c. if c \<in> set ''ABCDEFGHIJKLMNOPQRSTUVWXYZ''
                       then char_of (of_char c + (32::nat)) else c) s"

definition endswith :: "string \<Rightarrow> string \<Rightarrow> bool" where
  "endswith s suffix =
     (length suffix \<le> length s \<and> drop (length s - length suffix) s = suffix)"

section \<open>Files (os, os.path and open, in their POSIX form)\<close>

text \<open>
  A file system maps a path to what is there: a directory or a regular file with its
  bytes. Paths are compared as they are written. Permissions, quotas and other
  failures of the device are not part of the model.
\<close>

datatype node = Dir | File string

type_synonym filesystem = "string \<Rightarrow> node option"

definition path_exists :: "filesystem \<Rightarrow> string \<Rightarrow> bool" where
  "path_exists fs p = (fs p \<noteq> None)"

definition isdir :: "filesystem \<Rightarrow> string \<Rightarrow> bool" where
  "isdir fs p = (fs p = Some Dir)"

text \<open>
  \<open>os.path.getsize\<close>: the number of bytes of a regular file. (What a directory
  reports is the file system's business; the script asks only for files it has
  just written.)
\<close>

definition getsize :: "filesystem \<Rightarrow> string \<Rightarrow> exn + nat" where
  "getsize fs p =
     (case fs p of None \<Rightarrow> Inl OSError | Some Dir \<Rightarrow> Inr 4096
      | Some (File bytes) \<Rightarrow> Inr (length bytes))"

definition all_slashes :: "string \<Rightarrow> bool" where
  "all_slashes s = list_all (\<lambda>c. c = CHR ''/'') s"

text \<open>
  \<open>os.path.dirname\<close>: everything up to the last slash, without trailing slashes unless
  it consists of slashes only.
\<close>

definition dirname :: "string \<Rightarrow> string" where
  "dirname p =
     (let head = rev (dropWhile (\<lambda>c. c \<noteq> CHR ''/'') (rev p)) in
      if head \<noteq> [] \<and> \<not> all_slashes head
      then rev (dropWhile (\<lambda>c. c = CHR ''/'') (rev head)) else head)"

text \<open>\<open>os.path.join\<close> of two components.\<close>

definition path_join :: "string \<Rightarrow> string \<Rightarrow> string" where
  "path_join a b =
     (if b \<noteq> [] \<and> hd b = CHR ''/'' then b
      else if a = [] \<or> last a = CHR ''/'' then a @ b
      else a @ ''/'' @ b)"

text \<open>The directories above \<open>d\<close>: its prefixes that end where a slash begins.\<close>

definition ancestors :: "string \<Rightarrow> string list" where
  "ancestors d =
     filter (\<lambda>a. \<not> all_slashes a)
       (map (\<lambda>i. take i d) (filter (\<lambda>i. d ! i = CHR ''/'') [0..<length d]))"

text \<open>
  \<open>os.makedirs(d, exist_ok=True)\<close>: creates \<open>d\<close> and the directories above it that are
  missing, and leaves those that exist; it fails on the empty path and when \<open>d\<close> or a
  path above it is a regular file.
\<close>

definition makedirs :: "string \<Rightarrow> filesystem \<Rightarrow> exn + filesystem" where
  "makedirs d fs =
     (let wanted = ancestors d @ [d] in
      if d = [] then Inl OSError
      else if list_ex (\<lambda>a. case fs a of Some (File bytes) \<Rightarrow> True | _ \<Rightarrow> False) wanted
      then Inl OSError
      else Inr (\<lambda>p. if p \<in> set wanted then Some Dir else fs p))"

text \<open>
  \<open>open(p, 'wb')\<close>: the file is created empty, or emptied when it exists; it fails on
  the empty path, on a directory, and when the directory of \<open>p\<close> does not exist.
\<close>

definition open_wb :: "string \<Rightarrow> filesystem \<Rightarrow> exn + filesystem" where
  "open_wb p fs =
     (if p = [] \<or> isdir fs p then Inl OSError
      else if dirname p \<noteq> [] \<and> \<not> all_slashes (dirname p) \<and> \<not> isdir fs (dirname p)
      then Inl OSError
      else Inr (fs(p \<mapsto> File [])))"

section \<open>The artifact fetcher (1justMP4Video.py, download_comfy_output, lines 121--160)\<close>

text \<open>
  What \<open>urllib.request.urlopen\<close> does with the request to \<open>/view\<close>: it raises
  \<open>HTTPError\<close>, it raises something else (no connection, a timeout), or it returns a
  response with a status and a body; \<open>None\<close> as the body stands for a \<open>read()\<close> that
  raises.
\<close>

datatype http_reply = HTTPError | URLError | Response nat "string option"

text \<open>
  The function returns \<open>True\<close> or \<open>False\<close> and leaves the file system changed. Every
  exception raised inside the \<open>try\<close> is caught and answered with \<open>False\<close>. \<open>view\<close> is the
  server: its reply to the request for a file name, a subfolder and a type.
\<close>

definition download_comfy_output ::
  "(json \<Rightarrow> json \<Rightarrow> json \<Rightarrow> http_reply) \<Rightarrow> json \<Rightarrow> json \<Rightarrow> json \<Rightarrow> string
   \<Rightarrow> filesystem \<Rightarrow> bool \<times> filesystem" where
  "download_comfy_output view filename subfolder file_type target_local_path fs =
     (if \<not> py_truthy filename then (False, fs)
      else
        (case makedirs (dirname target_local_path) fs of
           Inl e \<Rightarrow> (False, fs)
         | Inr fs1 \<Rightarrow>
            (case view filename subfolder file_type of
               HTTPError \<Rightarrow> (False, fs1)
             | URLError \<Rightarrow> (False, fs1)
             | Response code body \<Rightarrow>
                 if code = 200 then
                   (case open_wb target_local_path fs1 of
                      Inl e \<Rightarrow> (False, fs1)
                    | Inr fs2 \<Rightarrow>
                       (case body of
                          None \<Rightarrow> (False, fs2)
                        | Some bytes \<Rightarrow>
                            (let fs3 = fs2(target_local_path \<mapsto> File bytes) in
                             if path_exists fs3 target_local_path
                                \<and> (case getsize fs3 target_local_path of
                                      Inl e \<Rightarrow> False | Inr n \<Rightarrow> n > 0)
                             then (True, fs3) else (False, fs3))))
                 else (False, fs1))))"

section \<open>The manifest and the final assembly (1justMP4Video.py, lines 356--420, 473--488)\<close>

text \<open>
  One entry of \<open>clips_manifest\<close>:
  \<open>{"id": ..., "clip_order": i, "status": ..., "comfy_file_info": ..., "mp4_path": ...}\<close>.
  \<open>mp4_path\<close> is a path or \<open>None\<close>.
\<close>

record entry =
  entry_id :: json
  clip_order :: nat
  status :: status
  comfy_file_info :: json
  mp4_path :: "string option"

text \<open>
  \<open>clip_info["status"] == "SUCCESS_MP4_DOWNLOADED" and clip_info["mp4_path"] and
  os.path.exists(clip_info["mp4_path"])\<close>
\<close>

definition usable_clip :: "filesystem \<Rightarrow> entry \<Rightarrow> bool" where
  "usable_clip fs clip_info =
     (status clip_info = SUCCESS_MP4_DOWNLOADED
      \<and> (case mp4_path clip_info of None \<Rightarrow> False
          | Some p \<Rightarrow> p \<noteq> [] \<and> path_exists fs p))"

text \<open>
  Lines 473--480: the manifest is sorted by \<open>clip_order\<close> (\<open>list.sort\<close> is stable, as
  \<open>sort_key\<close> is) and the paths of the usable clips are collected in that order.
\<close>

definition sorted_manifest :: "entry list \<Rightarrow> entry list" where
  "sorted_manifest clips_manifest = sort_key clip_order clips_manifest"

definition valid_mp4_paths_for_concat :: "filesystem \<Rightarrow> entry list \<Rightarrow> string list" where
  "valid_mp4_paths_for_concat fs clips_manifest =
     map (\<lambda>clip_info. the (mp4_path clip_info))
       (filter (usable_clip fs) (sorted_manifest clips_manifest))"

section \<open>Submitting a job (run_comfyui_video_generation, lines 162--188)\<close>

text \<open>
  What the function meets outside the script during one call: the library's
  parser of URI queries (see above), the seed that
  \<open>random.randint\<close> draws, the reply of the server to the workflow posted to \<open>/prompt\<close>
  (\<open>None\<close> when \<open>comfy_queue_prompt\<close> fails) and its replies to the history requests of
  the polls.
\<close>

record job_env =
  job_parse_query :: query_parser
  job_seed :: int
  job_queue_reply :: "json \<Rightarrow> json option"
  job_history :: "nat \<Rightarrow> json option"

text \<open>\<open>workflow[node]["inputs"][field] = x\<close>\<close>

definition set_input :: "pyval \<Rightarrow> string \<Rightarrow> string \<Rightarrow> pyval \<Rightarrow> heap \<Rightarrow> exn + heap" where
  "set_input workflow node field x h =
     rbind (v_getitem h workflow node) (\<lambda>nd.
     rbind (v_getitem h nd ''inputs'') (\<lambda>inputs.
       v_setitem h inputs field x))"

text \<open>
  Lines 168--182, on the copy \<open>workflow_to_run\<close>. The result is \<open>False\<close> when the save
  node is missing (the function then returns its error status), \<open>True\<close> when the workflow
  is ready to be queued; with it comes the heap as the statements executed so far
  have left it.
\<close>

definition edit_workflow ::
  "int \<Rightarrow> json \<Rightarrow> string \<Rightarrow> json \<Rightarrow> json \<Rightarrow> json \<Rightarrow> pyval \<Rightarrow> heap \<Rightarrow> (exn + bool) \<times> heap" where
  "edit_workflow new_seed video_prompt_text output_filename_prefix video_frames video_width
       video_height workflow_to_run h0 =
     (case alloc video_prompt_text h0 of (text, h) \<Rightarrow>
      (case set_input workflow_to_run POSITIVE_PROMPT_NODE_ID ''text'' text h of
         Inl e \<Rightarrow> (Inl e, h)
       | Inr h1 \<Rightarrow>
      (case set_input workflow_to_run KSAMPLER_NODE_ID ''seed'' (VInt new_seed) h1 of
         Inl e \<Rightarrow> (Inl e, h1)
       | Inr h2 \<Rightarrow>
      (case rbind (v_getitem h2 workflow_to_run EMPTY_LATENT_VIDEO_NODE_ID)
                  (\<lambda>nd. v_getitem h2 nd ''inputs'') of
         Inl e \<Rightarrow> (Inl e, h2)
       | Inr latent_inputs \<Rightarrow>
      (case rbind (py_int video_frames)
                  (\<lambda>n. v_setitem h2 latent_inputs ''length'' (VInt n)) of
         Inl e \<Rightarrow> (Inl e, h2)
       | Inr h3 \<Rightarrow>
      (case rbind (py_int video_width)
                  (\<lambda>n. v_setitem h3 latent_inputs ''width'' (VInt n)) of
         Inl e \<Rightarrow> (Inl e, h3)
       | Inr h4 \<Rightarrow>
      (case rbind (py_int video_height)
                  (\<lambda>n. v_setitem h4 latent_inputs ''height'' (VInt n)) of
         Inl e \<Rightarrow> (Inl e, h4)
       | Inr h5 \<Rightarrow>
      (case v_contains SAVE_MP4_NODE_ID h5 workflow_to_run of
         Inl e \<Rightarrow> (Inl e, h5)
       | Inr False \<Rightarrow> (Inr False, h5)
       | Inr True \<Rightarrow>
      (case set_input workflow_to_run SAVE_MP4_NODE_ID ''filename_prefix''
                      (VStr output_filename_prefix) h5 of
         Inl e \<Rightarrow> (Inl e, h5)
       | Inr h6 \<Rightarrow> (Inr True, h6))))))))))"

text \<open>
  \<open>comfy_queue_prompt\<close>: the workflow is serialised and posted; whatever goes wrong is
  caught and answered with \<open>None\<close>. The second component lists the workflows that
  reached the server, none or one.
\<close>

definition comfy_queue_prompt ::
  "(json \<Rightarrow> json option) \<Rightarrow> heap \<Rightarrow> pyval \<Rightarrow> json option \<times> json list" where
  "comfy_queue_prompt reply h prompt_workflow =
     (case dump (length h) h prompt_workflow of
        Inl e \<Rightarrow> (None, [])
      | Inr posted \<Rightarrow> (reply posted, [posted]))"

text \<open>
  The whole function: what it returns or raises, the heap it leaves and the workflows
  it has posted.
\<close>

definition run_comfyui_video_generation ::
  "job_env \<Rightarrow> json \<Rightarrow> pyval \<Rightarrow> string \<Rightarrow> json \<Rightarrow> json \<Rightarrow> json \<Rightarrow> heap
   \<Rightarrow> (exn + gen_result) \<times> heap \<times> json list" where
  "run_comfyui_video_generation env video_prompt_text base_workflow output_filename_prefix
       video_frames video_width video_height h =
     (if \<not> v_truthy h base_workflow then
        (Inr (GenResult ERROR_WORKFLOW_NOT_LOADED JNull), h, [])
      else
        (case deepcopy h base_workflow of
           (Inl e, h1) \<Rightarrow> (Inl e, h1, [])
         | (Inr workflow_to_run, h1) \<Rightarrow>
        (case edit_workflow (job_seed env) video_prompt_text output_filename_prefix
                video_frames video_width video_height workflow_to_run h1 of
           (Inl e, h2) \<Rightarrow> (Inl e, h2, [])
         | (Inr False, h2) \<Rightarrow>
             (Inr (GenResult ERROR_SAVE_MP4_NODE_MISSING_IN_WORKFLOW JNull), h2, [])
         | (Inr True, h2) \<Rightarrow>
        (case comfy_queue_prompt (job_queue_reply env) h2 workflow_to_run of
           (queued_data, sent) \<Rightarrow>
             (poll_queued (job_parse_query env) queued_data (job_history env), h2, sent)))))"

section \<open>Stage 2: the loop over the content items (lines 356--420)\<close>

text \<open>
  The surroundings of a run: for the item at each position, what its job meets and how
  the server answers the download; and the working directory, which is
  \<open>BASE_PROJECT_DIR\<close>.
\<close>

record environment =
  jobs :: "nat \<Rightarrow> job_env"
  views :: "nat \<Rightarrow> json \<Rightarrow> json \<Rightarrow> json \<Rightarrow> http_reply"
  BASE_PROJECT_DIR :: string

definition VIDEO_MP4_SUBDIR :: "environment \<Rightarrow> string" where
  "VIDEO_MP4_SUBDIR env =
     path_join (path_join (BASE_PROJECT_DIR env) ''video_outputs'') ''mp4_clips''"

text \<open>
  What the loop changes: the manifest, the success flag, the heap with the workflow
  template, the files, and the workflows posted to the server so far.
\<close>

record stage2_state =
  clips_manifest :: "entry list"
  comfyui_generation_overall_success :: bool
  objects :: heap
  files :: filesystem
  requests :: "json list"

text \<open>\<open>video_prompt[:50]\<close> inside the progress line: the value must allow slicing.\<close>

fun slice_check :: "json \<Rightarrow> exn + unit" where
  "slice_check (JStr s) = Inr ()"
| "slice_check (JArr xs) = Inr ()"
| "slice_check x = Inl TypeError"

text \<open>Lines 369--375: the parameters of the job.\<close>

definition job_parameters :: "json \<Rightarrow> json \<Rightarrow> json \<Rightarrow> exn + (json \<times> json \<times> json \<times> string)" where
  "job_parameters item item_id video_prompt =
     rbind (py_get item ''duration_frames'' (JInt DEFAULT_VIDEO_FRAMES)) (\<lambda>frames.
     rbind (py_get item ''width'' (JInt DEFAULT_VIDEO_WIDTH)) (\<lambda>width.
     rbind (py_get item ''height'' (JInt DEFAULT_VIDEO_HEIGHT)) (\<lambda>height.
     rbind (format_04d item_id) (\<lambda>safe_item_id_str.
     rbind (slice_check video_prompt) (\<lambda>u.
       Inr (frames, width, height, ''narrativegen_clip_'' @ safe_item_id_str @ ''_''))))))"

text \<open>
  Lines 396--407: the local path, the download, and what follows from its answer: the
  new status, the local path (or \<open>None\<close>), whether the success flag survives, and the
  files afterwards.
\<close>

definition store_clip ::
  "environment \<Rightarrow> nat \<Rightarrow> json \<Rightarrow> string \<Rightarrow> json \<Rightarrow> json \<Rightarrow> filesystem
   \<Rightarrow> status \<times> string option \<times> bool \<times> filesystem" where
  "store_clip env i filename retrieved_filename subfolder file_type fs =
     (let local_mp4_storage_path = path_join (VIDEO_MP4_SUBDIR env) retrieved_filename
      in case download_comfy_output (views env i) filename subfolder file_type
                local_mp4_storage_path fs of
           (True, fs') \<Rightarrow> (SUCCESS_MP4_DOWNLOADED, Some local_mp4_storage_path, True, fs')
         | (False, fs') \<Rightarrow> (ERROR_MP4_DOWNLOAD_FAILED, None, False, fs'))"

text \<open>Lines 386--411, the branch of the status \<open>SUCCESS\<close>.\<close>

definition fetch_clip ::
  "environment \<Rightarrow> nat \<Rightarrow> json \<Rightarrow> filesystem
   \<Rightarrow> exn + (status \<times> string option \<times> bool \<times> filesystem)" where
  "fetch_clip env i comfy_file_info_dict fs =
     rbind (if py_truthy comfy_file_info_dict
            then rbind (py_get comfy_file_info_dict ''filename'' JNull)
                       (\<lambda>f. Inr (py_truthy f))
            else Inr False) (\<lambda>has_file.
       if has_file then
         rbind (py_getitem comfy_file_info_dict (JStr ''filename'')) (\<lambda>filename.
         rbind (case filename of
                  JStr s \<Rightarrow> Inr (if \<not> endswith (lower s) ''.mp4'' then s @ ''.mp4'' else s)
                | _ \<Rightarrow> Inl AttributeError) (\<lambda>retrieved_filename.
         rbind (py_get comfy_file_info_dict ''subfolder'' (JStr [])) (\<lambda>subfolder.
         rbind (py_get comfy_file_info_dict ''type'' (JStr ''output'')) (\<lambda>file_type.
           Inr (store_clip env i filename retrieved_filename subfolder file_type fs)))))
       else Inr (ERROR_SUCCESS_NO_FILEDATA, None, False, fs))"

text \<open>
  One pass of the loop for the item at position \<open>i\<close>: the exception that ends the run
  there, if any, and the state after the pass.
\<close>

definition stage2_item ::
  "environment \<Rightarrow> pyval \<Rightarrow> nat \<Rightarrow> json \<Rightarrow> stage2_state \<Rightarrow> exn option \<times> stage2_state" where
  "stage2_item env base_workflow i item st =
     (case rbind (py_get item ''id'' (JInt (int i + 1))) (\<lambda>item_id.
           rbind (py_get item ''image_prompt'' JNull) (\<lambda>video_prompt.
             Inr (item_id, video_prompt))) of
        Inl e \<Rightarrow> (Some e, st)
      | Inr (item_id, video_prompt) \<Rightarrow>
          if \<not> py_truthy video_prompt then
            (None, st\<lparr>clips_manifest := clips_manifest st @
               [\<lparr>entry_id = item_id, clip_order = i, status = SKIPPED_NO_PROMPT,
                 comfy_file_info = JNull, mp4_path = None\<rparr>]\<rparr>)
          else
            (case job_parameters item item_id video_prompt of
               Inl e \<Rightarrow> (Some e, st)
             | Inr (frames, width, height, output_prefix_for_comfy) \<Rightarrow>
            (case run_comfyui_video_generation (jobs env i) video_prompt base_workflow
                    output_prefix_for_comfy frames width height (objects st) of
               (Inl e, h, sent) \<Rightarrow>
                 (Some e, st\<lparr>objects := h, requests := requests st @ sent\<rparr>)
             | (Inr generation_result, h, sent) \<Rightarrow>
                 (let st1 = st\<lparr>objects := h, requests := requests st @ sent\<rparr> in
                  if result_status generation_result = SUCCESS then
                    (case fetch_clip env i (result_data generation_result) (files st1) of
                       Inl e \<Rightarrow> (Some e, st1)
                     | Inr (current_clip_status, local_mp4_storage_path, ok, fs) \<Rightarrow>
                         (None, st1\<lparr>files := fs,
                            comfyui_generation_overall_success :=
                              comfyui_generation_overall_success st1 \<and> ok,
                            clips_manifest := clips_manifest st1 @
                              [\<lparr>entry_id = item_id, clip_order = i,
                                status = current_clip_status,
                                comfy_file_info = result_data generation_result,
                                mp4_path = local_mp4_storage_path\<rparr>]\<rparr>))
                  else
                    (None, st1\<lparr>comfyui_generation_overall_success := False,
                       clips_manifest := clips_manifest st1 @
                         [\<lparr>entry_id = item_id, clip_order = i,
                           status = result_status generation_result,
                           comfy_file_info = JNull, mp4_path = None\<rparr>]\<rparr>)))))"

text \<open>\<open>for i, item in enumerate(content_items)\<close>, from position \<open>i\<close> on.\<close>

fun stage2_loop ::
  "environment \<Rightarrow> pyval \<Rightarrow> nat \<Rightarrow> json list \<Rightarrow> stage2_state \<Rightarrow> exn option \<times> stage2_state" where
  "stage2_loop env base_workflow i [] st = (None, st)"
| "stage2_loop env base_workflow i (item # items) st =
     (case stage2_item env base_workflow i item st of
        (Some e, st') \<Rightarrow> (Some e, st')
      | (None, st') \<Rightarrow> stage2_loop env base_workflow (Suc i) items st')"

text \<open>
  Stage 2 from its start: an empty manifest, the flag set, nothing posted yet.
\<close>

definition stage2 ::
  "environment \<Rightarrow> pyval \<Rightarrow> json list \<Rightarrow> heap \<Rightarrow> filesystem \<Rightarrow> exn option \<times> stage2_state" where
  "stage2 env base_workflow content_items h fs =
     stage2_loop env base_workflow 0 content_items
       \<lparr>clips_manifest = [], comfyui_generation_overall_success = True,
        objects = h, files = fs, requests = []\<rparr>"

section \<open>Notions the properties are stated with\<close>

text \<open>
  A candidate key the resolver passes over: the key is not in the payload, or its value
  has length zero.
\<close>

definition absent_or_empty :: "string \<Rightarrow> (string \<times> json) list \<Rightarrow> bool" where
  "absent_or_empty k kvs =
     (case map_of kvs k of None \<Rightarrow> True | Some v \<Rightarrow> py_len v = Inr 0)"



text \<open>
  Notions for the heap. A value is fresh for a bound when it is a leaf or a reference at
  or above the bound; a heap is closed above the bound when the objects at or above it
  hold fresh values only; \<open>extends h h'\<close> says that \<open>h'\<close> is \<open>h\<close> with objects added at the
  end; \<open>kept n h0 h\<close> says that the first \<open>n\<close> objects of \<open>h\<close> are those of \<open>h0\<close> and
  that \<open>h\<close> is closed above \<open>n\<close>.
\<close>

definition fresh_val :: "nat \<Rightarrow> pyval \<Rightarrow> bool" where
  "fresh_val n0 v = (case v of VRef b \<Rightarrow> n0 \<le> b | _ \<Rightarrow> True)"

definition fresh_closed :: "nat \<Rightarrow> heap \<Rightarrow> bool" where
  "fresh_closed n0 h =
     (\<forall>a. n0 \<le> a \<and> a < length h \<longrightarrow> list_all (fresh_val n0) (obj_vals (h ! a)))"

definition extends :: "heap \<Rightarrow> heap \<Rightarrow> bool" where
  "extends h h' = (length h \<le> length h' \<and> take (length h) h' = h)"

definition kept :: "nat \<Rightarrow> heap \<Rightarrow> heap \<Rightarrow> bool" where
  "kept n0 h0 h = (n0 \<le> length h \<and> take n0 h = take n0 h0 \<and> fresh_closed n0 h)"

text \<open>The invariant of a manifest entry: a local path is there exactly on success.\<close>

definition path_iff_downloaded :: "entry \<Rightarrow> bool" where
  "path_iff_downloaded c = ((mp4_path c \<noteq> None) = (status c = SUCCESS_MP4_DOWNLOADED))"

section \<open>Sample data for the instances\<close>

text \<open>
  A workflow template as \<open>json.load\<close> leaves it in the heap, with the four nodes the
  script edits:
  \<open>{"6": {"inputs": {"text": ""}}, "3": {"inputs": {"seed": 0}},
    "40": {"inputs": {"length": 1}}, "52": {"inputs": {}}}\<close>.
  The template itself is the last object.
\<close>

definition sample_template :: heap where
  "sample_template =
     [ODict [(''text'', VStr [])], ODict [(''inputs'', VRef 0)],
      ODict [(''seed'', VInt 0)], ODict [(''inputs'', VRef 2)],
      ODict [(''length'', VInt 1)], ODict [(''inputs'', VRef 4)],
      ODict [], ODict [(''inputs'', VRef 6)],
      ODict [(''6'', VRef 1), (''3'', VRef 3), (''40'', VRef 5), (''52'', VRef 7)]]"

text \<open>The same template without the save node \<open>52\<close>.\<close>

definition template_without_save_node :: heap where
  "template_without_save_node =
     [ODict [(''text'', VStr [])], ODict [(''inputs'', VRef 0)],
      ODict [(''seed'', VInt 0)], ODict [(''inputs'', VRef 2)],
      ODict [(''length'', VInt 1)], ODict [(''inputs'', VRef 4)],
      ODict [(''6'', VRef 1), (''3'', VRef 3), (''40'', VRef 5)]]"

text \<open>
  A server that accepts every job under the handle \<open>abc\<close> and shows, from the first
  poll on, the clip \<open>clip.mp4\<close> as the output of the save node; the job of the item at
  position 3 is refused instead. The download of the item at position 2 returns an
  empty body, every other download three bytes.
\<close>

definition sample_job :: "nat \<Rightarrow> job_env" where
  "sample_job i =
     \<lparr>job_parse_query = (\<lambda>u. Inr []),
      job_seed = 7,
      job_queue_reply = (\<lambda>posted. if i = 3 then None
                          else Some (JObj [(''prompt_id'', JStr ''abc'')])),
      job_history = (\<lambda>attempt. Some (JObj [(''abc'', JObj [(''outputs'',
         JObj [(''52'', JObj [(''videos'',
           JArr [JObj [(''filename'', JStr ''clip.mp4'')]])])])])]))\<rparr>"

definition sample_environment :: environment where
  "sample_environment =
     \<lparr>jobs = sample_job,
      views = (\<lambda>i filename subfolder file_type.
                 if i = 2 then Response 200 (Some []) else Response 200 (Some ''abc'')),
      BASE_PROJECT_DIR = ''/home/u''\<rparr>"

text \<open>
  Four content items: a prompt; no prompt; a prompt whose download comes back empty; a
  prompt whose job is refused.
\<close>

definition sample_items :: "json list" where
  "sample_items =
     [JObj [(''id'', JInt 1), (''image_prompt'', JStr ''a cat'')],
      JObj [(''id'', JInt 2), (''commentary'', JStr ''no picture'')],
      JObj [(''id'', JInt 3), (''image_prompt'', JStr ''a dog'')],
      JObj [(''id'', JInt 4), (''image_prompt'', JStr ''a bird'')]]"

section \<open>Properties of the duration reconciliation\<close>

text \<open>
  C1. For every pair of durations with a positive video duration, with
  \<open>diff = audio - video\<close>: the plan is \<open>NONE\<close> when \<open>diff \<le> 0\<close>; it is
  \<open>STRETCH (audio / video)\<close>, with a factor greater than one, when \<open>0 < diff \<le> 4\<close>;
  and it is \<open>FREEZE_PAD diff\<close> when \<open>diff > 4\<close>. The three scenarios of the
  specification are instances: 7 s against 5 s stretches by 1.4, 12 s against 5 s
  freezes the last frame for 7 s, and 4 s against 6 s applies no filter.
\<close>

theorem plan_cases:
  assumes "0 < v_dur"
  shows "(a_dur - v_dur \<le> 0 \<longrightarrow> plan a_dur v_dur = NONE)
       \<and> (0 < a_dur - v_dur \<and> a_dur - v_dur \<le> 4 \<longrightarrow>
            plan a_dur v_dur = STRETCH (a_dur / v_dur) \<and> 1 < a_dur / v_dur)
       \<and> (4 < a_dur - v_dur \<longrightarrow> plan a_dur v_dur = FREEZE_PAD (a_dur - v_dur))
       \<and> plan 7 5 = STRETCH 1.4
       \<and> plan 12 5 = FREEZE_PAD 7
       \<and> plan 4 6 = NONE"
proof -
  have none: "a_dur - v_dur \<le> 0 \<longrightarrow> plan a_dur v_dur = NONE"
    by (simp add: plan_def Let_def)
  have stretch: "0 < a_dur - v_dur \<and> a_dur - v_dur \<le> 4 \<longrightarrow>
      plan a_dur v_dur = STRETCH (a_dur / v_dur) \<and> 1 < a_dur / v_dur"
    using assms by (simp add: plan_def Let_def)
  have freeze: "4 < a_dur - v_dur \<longrightarrow> plan a_dur v_dur = FREEZE_PAD (a_dur - v_dur)"
    by (simp add: plan_def Let_def)
  have ex1: "plan 7 5 = STRETCH 1.4" by (simp add: plan_def Let_def)
  have ex2: "plan 12 5 = FREEZE_PAD 7" by (simp add: plan_def Let_def)
  have ex3: "plan 4 6 = NONE" by (simp add: plan_def Let_def)
  from none stretch freeze ex1 ex2 ex3 show ?thesis by blast
qed

theorem plan_cases_witness:
  "(0::real) < 5 \<and> plan 7 5 = STRETCH (7 / 5) \<and> (1::real) < 7 / 5
   \<and> plan 13 5 = FREEZE_PAD (13 - 5) \<and> plan 5 5 = NONE"
proof -
  have h: "(0::real) < 5" by simp
  have a: "plan 7 5 = STRETCH (7 / 5) \<and> (1::real) < 7 / 5"
    using plan_cases [OF h, of 7] by simp
  have b: "plan 13 5 = FREEZE_PAD (13 - 5)"
    using plan_cases [OF h, of 13] by simp
  have c: "plan 5 5 = NONE"
    using plan_cases [OF h, of 5] by simp
  from h a b c show ?thesis by blast
qed

section \<open>Properties of the pairing stage\<close>

text \<open>
  C2 (the code departs from the claim). The claim is that pairings are formed exactly
  for the four-digit identifiers present in both directories and that a file whose
  name does not match its pattern contributes no pairing and does not affect the
  result. \<open>index_from\<close> gives such a file the key \<open>None\<close>, and the dicts keep that
  key. With one unmatched file in each directory and nothing else, \<open>None\<close> is the one
  common key and the two unmatched files are merged as a pairing; with a matching pair
  beside them, sorting \<open>None\<close> with the identifier raises TypeError and the matching
  pair is lost. Without the unmatched files the same pair is formed.
\<close>

theorem pairings_with_unmatched_files:
  "pairings [''notes.wav''] [''intro.mp4''] = Inr [(None, ''notes.wav'', ''intro.mp4'')]
   \<and> pairings [''clip_0001_narration.wav'', ''notes.wav'']
         [''narrativegen_clip_0001__00001.mp4'', ''intro.mp4''] = Inl TypeError
   \<and> pairings [''clip_0001_narration.wav''] [''narrativegen_clip_0001__00001.mp4'']
       = Inr [(Some ''0001'', ''clip_0001_narration.wav'',
               ''narrativegen_clip_0001__00001.mp4'')]"
proof -
  note defs = pairings_def index_dict_def index_from_def glob_ext_def wav_pat_def
    mp4_pat_def at_end_def is_digit_def sorted_keys_def Let_def
  have a: "pairings [''notes.wav''] [''intro.mp4'']
      = Inr [(None, ''notes.wav'', ''intro.mp4'')]"
    by (simp add: defs)
  have b: "pairings [''clip_0001_narration.wav'', ''notes.wav'']
         [''narrativegen_clip_0001__00001.mp4'', ''intro.mp4''] = Inl TypeError"
    by (simp add: defs)
  have c: "pairings [''clip_0001_narration.wav''] [''narrativegen_clip_0001__00001.mp4'']
       = Inr [(Some ''0001'', ''clip_0001_narration.wav'',
               ''narrativegen_clip_0001__00001.mp4'')]"
    by (simp add: defs)
  from a b c show ?thesis by blast
qed

section \<open>Properties of the resolver\<close>

lemma rbind_eq_Inr: "rbind m f = Inr y \<longleftrightarrow> (\<exists>x. m = Inr x \<and> f x = Inr y)"
  by (cases m) auto

lemma key_nonempty_absent:
  "absent_or_empty k kvs \<Longrightarrow> key_nonempty k (JObj kvs) = Inr False"
  by (auto simp: absent_or_empty_def key_nonempty_def split: option.splits)

lemma key_nonempty_list:
  "map_of kvs k = Some (JArr (x # xs)) \<Longrightarrow> key_nonempty k (JObj kvs) = Inr True"
  by (simp add: key_nonempty_def)

lemma first_of_list:
  "map_of kvs k = Some (JArr (x # xs)) \<Longrightarrow> first_of k (JObj kvs) = Inr x"
  by (simp add: first_of_def seq_index_def)

lemma find_videos:
  "map_of kvs ''videos'' = Some (JArr (x # xs)) \<Longrightarrow> find_file_info pq (JObj kvs) = Inr x"
  by (simp add: find_file_info_def key_nonempty_list first_of_list)

lemma find_files:
  "absent_or_empty ''videos'' kvs \<Longrightarrow> map_of kvs ''files'' = Some (JArr (x # xs))
   \<Longrightarrow> find_file_info pq (JObj kvs) = Inr x"
  by (simp add: find_file_info_def key_nonempty_list first_of_list key_nonempty_absent)

lemma find_uris:
  "absent_or_empty ''videos'' kvs \<Longrightarrow> absent_or_empty ''files'' kvs
   \<Longrightarrow> map_of kvs ''uris'' = Some (JArr (x # xs))
   \<Longrightarrow> find_file_info pq (JObj kvs) = from_uri pq x"
  by (simp add: find_file_info_def key_nonempty_list first_of_list key_nonempty_absent)

lemma find_gifs:
  "absent_or_empty ''videos'' kvs \<Longrightarrow> absent_or_empty ''files'' kvs
   \<Longrightarrow> absent_or_empty ''uris'' kvs
   \<Longrightarrow> map_of kvs ''gifs'' = Some (JArr (x # xs))
   \<Longrightarrow> find_file_info pq (JObj kvs) = Inr x"
  by (simp add: find_file_info_def key_nonempty_list first_of_list key_nonempty_absent)

lemma find_images:
  "absent_or_empty ''videos'' kvs \<Longrightarrow> absent_or_empty ''files'' kvs
   \<Longrightarrow> absent_or_empty ''uris'' kvs \<Longrightarrow> absent_or_empty ''gifs'' kvs
   \<Longrightarrow> map_of kvs ''images'' = Some (JArr (x # xs))
   \<Longrightarrow> find_file_info pq (JObj kvs) = Inr x"
  by (simp add: find_file_info_def key_nonempty_list first_of_list key_nonempty_absent)

lemma find_nothing:
  "absent_or_empty ''videos'' kvs \<Longrightarrow> absent_or_empty ''files'' kvs
   \<Longrightarrow> absent_or_empty ''uris'' kvs \<Longrightarrow> absent_or_empty ''gifs'' kvs
   \<Longrightarrow> absent_or_empty ''images'' kvs
   \<Longrightarrow> find_file_info pq (JObj kvs) = Inr JNull"
  by (simp add: find_file_info_def key_nonempty_absent)

lemmas resolve_eval = resolve_def find_file_info_def key_nonempty_def first_of_def
  seq_index_def has_filename_def fill_defaults_def from_uri_def qs_first_def

text \<open>
  C5. The resolver tries the candidate keys in the order \<open>videos\<close>, \<open>files\<close>, \<open>uris\<close>,
  \<open>gifs\<close>, \<open>images\<close> and takes the first one whose list is not empty: the record it
  goes on with is the first element of that list (for \<open>uris\<close>, what the first element
  is read as), and \<open>None\<close> when every key is absent or empty. In particular, when
  \<open>videos\<close> (or, with \<open>videos\<close> absent or empty, \<open>files\<close>) and \<open>uris\<close> are both present
  and not empty, the record of the structured key is the one resolved: the answer is
  that of a payload with that record alone. All this holds whatever the library's
  parser of URI queries does.
\<close>

theorem resolver_priority:
  "(map_of kvs ''videos'' = Some (JArr (x # xs)) \<longrightarrow> find_file_info pq (JObj kvs) = Inr x)
   \<and> (absent_or_empty ''videos'' kvs \<and> map_of kvs ''files'' = Some (JArr (x # xs))
        \<longrightarrow> find_file_info pq (JObj kvs) = Inr x)
   \<and> (absent_or_empty ''videos'' kvs \<and> absent_or_empty ''files'' kvs
        \<and> map_of kvs ''uris'' = Some (JArr (x # xs))
        \<longrightarrow> find_file_info pq (JObj kvs) = from_uri pq x)
   \<and> (absent_or_empty ''videos'' kvs \<and> absent_or_empty ''files'' kvs
        \<and> absent_or_empty ''uris'' kvs \<and> map_of kvs ''gifs'' = Some (JArr (x # xs))
        \<longrightarrow> find_file_info pq (JObj kvs) = Inr x)
   \<and> (absent_or_empty ''videos'' kvs \<and> absent_or_empty ''files'' kvs
        \<and> absent_or_empty ''uris'' kvs \<and> absent_or_empty ''gifs'' kvs
        \<and> map_of kvs ''images'' = Some (JArr (x # xs))
        \<longrightarrow> find_file_info pq (JObj kvs) = Inr x)
   \<and> (absent_or_empty ''videos'' kvs \<and> absent_or_empty ''files'' kvs
        \<and> absent_or_empty ''uris'' kvs \<and> absent_or_empty ''gifs'' kvs
        \<and> absent_or_empty ''images'' kvs
        \<longrightarrow> find_file_info pq (JObj kvs) = Inr JNull)
   \<and> (map_of kvs ''videos'' = Some (JArr (x # xs)) \<and> map_of kvs ''uris'' = Some (JArr (u # us))
        \<longrightarrow> resolve pq (JObj kvs) = resolve pq (JObj [(''videos'', JArr [x])]))
   \<and> (absent_or_empty ''videos'' kvs \<and> map_of kvs ''files'' = Some (JArr (x # xs))
        \<and> map_of kvs ''uris'' = Some (JArr (u # us))
        \<longrightarrow> resolve pq (JObj kvs) = resolve pq (JObj [(''files'', JArr [x])]))"
proof -
  have only_videos: "find_file_info pq (JObj [(''videos'', JArr [x])]) = Inr x"
    by (rule find_videos) simp
  have only_files: "find_file_info pq (JObj [(''files'', JArr [x])]) = Inr x"
    by (rule find_files) (simp_all add: absent_or_empty_def)
  have v: "map_of kvs ''videos'' = Some (JArr (x # xs)) \<and> map_of kvs ''uris'' = Some (JArr (u # us))
        \<longrightarrow> resolve pq (JObj kvs) = resolve pq (JObj [(''videos'', JArr [x])])"
    by (simp add: resolve_def find_videos only_videos)
  have f: "absent_or_empty ''videos'' kvs \<and> map_of kvs ''files'' = Some (JArr (x # xs))
        \<and> map_of kvs ''uris'' = Some (JArr (u # us))
        \<longrightarrow> resolve pq (JObj kvs) = resolve pq (JObj [(''files'', JArr [x])])"
    by (simp add: resolve_def find_files only_files)
  from v f show ?thesis
    using find_videos [of kvs x xs pq] find_files [of kvs x xs pq]
      find_uris [of kvs x xs pq] find_gifs [of kvs x xs pq] find_images [of kvs x xs pq]
      find_nothing [of kvs pq]
    by blast
qed

theorem resolver_priority_witness:
  "find_file_info (\<lambda>u. Inr [(''filename'', [''b.mp4''])])
      (JObj [(''uris'', JArr [JStr ''http://127.0.0.1:8188/view?filename=b.mp4'']),
             (''videos'', JArr [JObj [(''filename'', JStr ''a.mp4'')]])])
     = Inr (JObj [(''filename'', JStr ''a.mp4'')])
   \<and> resolve (\<lambda>u. Inr [(''filename'', [''b.mp4''])])
      (JObj [(''uris'', JArr [JStr ''http://127.0.0.1:8188/view?filename=b.mp4'']),
             (''videos'', JArr [JObj [(''filename'', JStr ''a.mp4'')]])])
     = Inr (GenResult SUCCESS (JObj [(''filename'', JStr ''a.mp4''), (''type'', JStr ''output''),
                                    (''subfolder'', JStr [])]))"
proof -
  let ?pq = "\<lambda>u::string. Inr [(''filename'', [''b.mp4''])] :: exn + (string \<times> string list) list"
  let ?kvs = "[(''uris'', JArr [JStr ''http://127.0.0.1:8188/view?filename=b.mp4'']),
               (''videos'', JArr [JObj [(''filename'', JStr ''a.mp4'')]])]"
  have h1: "map_of ?kvs ''videos'' = Some (JArr (JObj [(''filename'', JStr ''a.mp4'')] # []))"
    by simp
  have h2: "map_of ?kvs ''uris''
      = Some (JArr (JStr ''http://127.0.0.1:8188/view?filename=b.mp4'' # []))"
    by simp
  have alone: "resolve ?pq (JObj [(''videos'', JArr [JObj [(''filename'', JStr ''a.mp4'')]])])
     = Inr (GenResult SUCCESS (JObj [(''filename'', JStr ''a.mp4''), (''type'', JStr ''output''),
                                    (''subfolder'', JStr [])]))"
    by (simp add: resolve_eval)
  from resolver_priority [of ?kvs "JObj [(''filename'', JStr ''a.mp4'')]" "[]" ?pq
      "JStr ''http://127.0.0.1:8188/view?filename=b.mp4''" "[]"] h1 h2 alone
  show ?thesis by simp
qed

text \<open>
  C3 (the code departs from the claim). The claim is that a \<open>uris\<close> entry whose first
  URI yields no filename is treated as not found and that the legacy keys \<open>gifs\<close> and
  \<open>images\<close> are tried next; the comment of line 241 announces that fallback. The
  candidate keys form one \<open>if\<close>/\<open>elif\<close> chain, so once the branch of \<open>uris\<close> is taken no
  later key is looked at. A payload whose URI has no \<open>filename=\<close> and whose \<open>gifs\<close>
  list holds a usable record ends with \<open>ERROR_NO_USABLE_KEY_IN_OUTPUT_MP4\<close>, whatever
  the library's parser does (it is not called). One whose URI has \<open>filename=\<close> only
  inside another parameter name, which the library reads as
  \<open>{'myfilename': ['clip.mp4']}\<close>, ends with \<open>ERROR_POTENTIAL_KEY_LACKS_FILENAME\<close>. The
  same \<open>gifs\<close> list alone resolves.
\<close>

theorem uris_without_filename_skips_legacy_keys:
  "resolve pq (JObj [(''uris'', JArr [JStr ''http://127.0.0.1:8188/api/output/clip.mp4'']),
                  (''gifs'', JArr [JObj [(''filename'', JStr ''clip.gif''),
                     (''subfolder'', JStr []), (''type'', JStr ''output'')]])])
     = Inr (GenResult ERROR_NO_USABLE_KEY_IN_OUTPUT_MP4 JNull)
   \<and> resolve (\<lambda>u. Inr [(''myfilename'', [''clip.mp4''])])
         (JObj [(''uris'', JArr [JStr ''http://127.0.0.1:8188/view?myfilename=clip.mp4'']),
                  (''gifs'', JArr [JObj [(''filename'', JStr ''clip.gif''),
                     (''subfolder'', JStr []), (''type'', JStr ''output'')]])])
     = Inr (GenResult ERROR_POTENTIAL_KEY_LACKS_FILENAME JNull)
   \<and> resolve pq (JObj [(''gifs'', JArr [JObj [(''filename'', JStr ''clip.gif''),
                     (''subfolder'', JStr []), (''type'', JStr ''output'')]])])
     = Inr (GenResult SUCCESS (JObj [(''filename'', JStr ''clip.gif''),
                     (''subfolder'', JStr []), (''type'', JStr ''output'')]))"
proof -
  have a: "resolve pq (JObj [(''uris'', JArr [JStr ''http://127.0.0.1:8188/api/output/clip.mp4'']),
                  (''gifs'', JArr [JObj [(''filename'', JStr ''clip.gif''),
                     (''subfolder'', JStr []), (''type'', JStr ''output'')]])])
     = Inr (GenResult ERROR_NO_USABLE_KEY_IN_OUTPUT_MP4 JNull)"
    by (simp add: resolve_eval)
  have b: "resolve (\<lambda>u. Inr [(''myfilename'', [''clip.mp4''])])
         (JObj [(''uris'', JArr [JStr ''http://127.0.0.1:8188/view?myfilename=clip.mp4'']),
                  (''gifs'', JArr [JObj [(''filename'', JStr ''clip.gif''),
                     (''subfolder'', JStr []), (''type'', JStr ''output'')]])])
     = Inr (GenResult ERROR_POTENTIAL_KEY_LACKS_FILENAME JNull)"
    by (simp add: resolve_eval)
  have c: "resolve pq (JObj [(''gifs'', JArr [JObj [(''filename'', JStr ''clip.gif''),
                     (''subfolder'', JStr []), (''type'', JStr ''output'')]])])
     = Inr (GenResult SUCCESS (JObj [(''filename'', JStr ''clip.gif''),
                     (''subfolder'', JStr []), (''type'', JStr ''output'')]))"
    by (simp add: resolve_eval)
  from a b c show ?thesis by blast
qed

section \<open>Properties of the polling loop\<close>




lemma resolve_status:
  "resolve pq nod = Inr g \<Longrightarrow>
   result_status g \<in> {SUCCESS, ERROR_POTENTIAL_KEY_LACKS_FILENAME,
                       ERROR_NO_USABLE_KEY_IN_OUTPUT_MP4}"
  by (auto simp: resolve_def rbind_eq_Inr split: if_splits)

lemma poll_step_status:
  "poll_step pq pid a h = Inr (Some g) \<Longrightarrow>
   result_status g \<in> {SUCCESS, ERROR_POTENTIAL_KEY_LACKS_FILENAME,
                       ERROR_NO_USABLE_KEY_IN_OUTPUT_MP4, ERROR_SAVE_NODE_NOT_IN_OUTPUTS}"
  by (auto simp: poll_step_def rbind_eq_Inr split: option.splits if_splits
      dest: resolve_status)







section \<open>Properties of the artifact fetcher\<close>

lemma makedirs_isdir:
  assumes "makedirs d fs = Inr fs1"
  shows "\<forall>a \<in> set (ancestors d @ [d]). isdir fs1 a"
  using assms by (auto simp: makedirs_def isdir_def Let_def split: if_splits)

lemma download_True:
  assumes "download_comfy_output view fn sf ty target fs = (True, fs')"
  shows "(\<exists>bytes. fs' target = Some (File bytes) \<and> 0 < length bytes)
       \<and> (\<forall>a \<in> set (ancestors (dirname target) @ [dirname target]). isdir fs' a)"
proof -
  from assms obtain fs1 fs2 bytes where
    mk: "makedirs (dirname target) fs = Inr fs1"
    and op: "open_wb target fs1 = Inr fs2"
    and fs': "fs' = fs2(target \<mapsto> File bytes)"
    and sz: "0 < length bytes"
    by (auto simp: download_comfy_output_def Let_def getsize_def path_exists_def
        split: if_splits sum.splits http_reply.splits option.splits)
  from op have fs2: "fs2 = fs1(target \<mapsto> File [])" and nd: "\<not> isdir fs1 target"
    by (auto simp: open_wb_def split: if_splits)
  have dirs: "\<forall>a \<in> set (ancestors (dirname target) @ [dirname target]). isdir fs1 a"
    using mk by (rule makedirs_isdir)
  have "\<forall>a \<in> set (ancestors (dirname target) @ [dirname target]). isdir fs' a"
  proof
    fix a assume a: "a \<in> set (ancestors (dirname target) @ [dirname target])"
    with dirs have "isdir fs1 a" by blast
    with nd have "a \<noteq> target" by auto
    with \<open>isdir fs1 a\<close> show "isdir fs' a" by (simp add: fs' fs2 isdir_def)
  qed
  with fs' sz show ?thesis by simp
qed

lemma download_empty_body:
  "view fn sf ty = Response 200 (Some []) \<Longrightarrow>
   fst (download_comfy_output view fn sf ty target fs) = False"
  by (simp add: download_comfy_output_def Let_def getsize_def path_exists_def
        split: sum.splits)

text \<open>
  C7. The fetcher reports success only if, after the write, the destination is a
  regular file of more than zero bytes; by then the directory of the destination and
  every directory above it exist. When the transfer itself succeeds (status 200, the
  body read without an error) but the body is empty, so that the file written has size
  0, the fetcher reports failure.
\<close>

theorem download_reports_success_only_for_nonempty_file:
  "(download_comfy_output view fn sf ty target fs = (True, fs') \<longrightarrow>
      (\<exists>bytes. fs' target = Some (File bytes) \<and> 0 < length bytes)
      \<and> path_exists fs' target \<and> (\<exists>n. getsize fs' target = Inr n \<and> 0 < n)
      \<and> (\<forall>a \<in> set (ancestors (dirname target) @ [dirname target]). isdir fs' a))
   \<and> (view fn sf ty = Response 200 (Some []) \<longrightarrow>
      fst (download_comfy_output view fn sf ty target fs) = False)"
proof -
  have "download_comfy_output view fn sf ty target fs = (True, fs') \<longrightarrow>
      (\<exists>bytes. fs' target = Some (File bytes) \<and> 0 < length bytes)
      \<and> path_exists fs' target \<and> (\<exists>n. getsize fs' target = Inr n \<and> 0 < n)
      \<and> (\<forall>a \<in> set (ancestors (dirname target) @ [dirname target]). isdir fs' a)"
  proof
    assume "download_comfy_output view fn sf ty target fs = (True, fs')"
    from download_True [OF this] obtain bytes where
      b: "fs' target = Some (File bytes)" "0 < length bytes"
      and d: "\<forall>a \<in> set (ancestors (dirname target) @ [dirname target]). isdir fs' a"
      by blast
    from b have "path_exists fs' target" "getsize fs' target = Inr (length bytes)"
      by (simp_all add: path_exists_def getsize_def)
    with b d show "(\<exists>bytes. fs' target = Some (File bytes) \<and> 0 < length bytes)
      \<and> path_exists fs' target \<and> (\<exists>n. getsize fs' target = Inr n \<and> 0 < n)
      \<and> (\<forall>a \<in> set (ancestors (dirname target) @ [dirname target]). isdir fs' a)"
      by blast
  qed
  then show ?thesis using download_empty_body [of view fn sf ty target fs] by blast
qed

theorem download_reports_success_only_for_nonempty_file_witness:
  "download_comfy_output (\<lambda>f s t. Response 200 (Some ''abc'')) (JStr ''a.mp4'') (JStr [])
       (JStr ''output'') ''video_outputs/mp4_clips/a.mp4'' (\<lambda>p. None)
     = (True, (\<lambda>p. if p \<in> set [''video_outputs'', ''video_outputs/mp4_clips'']
                    then Some Dir else None)
              (''video_outputs/mp4_clips/a.mp4'' \<mapsto> File ''abc''))
   \<and> isdir ((\<lambda>p. if p \<in> set [''video_outputs'', ''video_outputs/mp4_clips'']
                    then Some Dir else None)
              (''video_outputs/mp4_clips/a.mp4'' \<mapsto> File ''abc'')) ''video_outputs/mp4_clips''
   \<and> fst (download_comfy_output (\<lambda>f s t. Response 200 (Some [])) (JStr ''a.mp4'') (JStr [])
       (JStr ''output'') ''video_outputs/mp4_clips/a.mp4'' (\<lambda>p. None)) = False"
proof -
  let ?fs' = "(\<lambda>p. if p \<in> set [''video_outputs'', ''video_outputs/mp4_clips'']
                    then Some Dir else None)
              (''video_outputs/mp4_clips/a.mp4'' \<mapsto> File ''abc'')"
  have run: "download_comfy_output (\<lambda>f s t. Response 200 (Some ''abc'')) (JStr ''a.mp4'')
       (JStr []) (JStr ''output'') ''video_outputs/mp4_clips/a.mp4'' (\<lambda>p. None)
     = (True, ?fs')"
    by (simp add: download_comfy_output_def Let_def getsize_def path_exists_def makedirs_def
      dirname_def ancestors_def all_slashes_def open_wb_def isdir_def upt_rec)
  have dn: "dirname ''video_outputs/mp4_clips/a.mp4'' = ''video_outputs/mp4_clips''"
    by (simp add: dirname_def all_slashes_def)
  have "isdir ?fs' ''video_outputs/mp4_clips''"
    using download_reports_success_only_for_nonempty_file
      [of "\<lambda>f s t. Response 200 (Some ''abc'')" "JStr ''a.mp4''" "JStr []" "JStr ''output''"
          "''video_outputs/mp4_clips/a.mp4''" "\<lambda>p. None" ?fs'] run
    unfolding dn by simp
  moreover have "fst (download_comfy_output (\<lambda>f s t. Response 200 (Some [])) (JStr ''a.mp4'')
       (JStr []) (JStr ''output'') ''video_outputs/mp4_clips/a.mp4'' (\<lambda>p. None)) = False"
    using download_reports_success_only_for_nonempty_file
      [of "\<lambda>f s t. Response 200 (Some [])" "JStr ''a.mp4''" "JStr []" "JStr ''output''"]
    by simp
  ultimately show ?thesis using run by simp
qed

section \<open>Properties of the final assembly\<close>

lemma filter_key_single:
  "distinct l \<Longrightarrow> k \<in> set l \<Longrightarrow> inj_on f (set l)
   \<Longrightarrow> filter (\<lambda>x. f k = f x) l = [k]"
proof (induction l)
  case Nil
  then show ?case by simp
next
  case (Cons a l)
  show ?case
  proof (cases "a = k")
    case True
    have "filter (\<lambda>x. f k = f x) l = []"
    proof (rule filter_False, rule ballI)
      fix x assume "x \<in> set l"
      with Cons.prems True have "x \<noteq> k" by auto
      with \<open>x \<in> set l\<close> Cons.prems(3) True show "\<not> f k = f x"
        by (auto simp: inj_on_def)
    qed
    with True show ?thesis by simp
  next
    case False
    with Cons.prems have k: "k \<in> set l" by simp
    have "f k \<noteq> f a" using False Cons.prems(3) k by (auto simp: inj_on_def)
    moreover have "filter (\<lambda>x. f k = f x) l = [k]"
      using Cons.IH Cons.prems k by (simp add: inj_on_def)
    ultimately show ?thesis by simp
  qed
qed

lemma sort_key_perm:
  assumes "mset m' = mset m" and "distinct (map clip_order m)"
  shows "sort_key clip_order m' = sort_key clip_order m"
proof (rule properties_for_sort_key)
  show "mset (sort_key clip_order m) = mset m'" using assms(1) by simp
  show "sorted (map clip_order (sort_key clip_order m))" by simp
  fix k assume "k \<in> set (sort_key clip_order m)"
  then have k: "k \<in> set m" by simp
  have inj: "inj_on clip_order (set m)" and d: "distinct m"
    using assms(2) by (simp_all add: distinct_map)
  have sets: "set m' = set m" using assms(1) by (rule mset_eq_setD)
  have d': "distinct m'" using d assms(1) by (metis mset_eq_imp_distinct_iff)
  have a: "filter (\<lambda>x. clip_order k = clip_order x) m' = [k]"
    by (rule filter_key_single) (use k sets d' inj in simp_all)
  have b: "filter (\<lambda>x. clip_order k = clip_order x) (sort_key clip_order m) = [k]"
    by (rule filter_key_single) (use k d inj in simp_all)
  show "filter (\<lambda>x. clip_order k = clip_order x) (sort_key clip_order m)
      = filter (\<lambda>x. clip_order k = clip_order x) m'"
    using a b by simp
qed

text \<open>
  C8. For every manifest, the clips that go into the concatenation list are taken in
  ascending order of their stored \<open>clip_order\<close>. With the order fields distinct, as the
  positions of the content items are, the list is the same for every order in which the
  same entries were appended to the manifest. (The assembly never lists a directory: it
  asks the file system only whether each stored path exists.)
\<close>

theorem assembly_follows_clip_order:
  "valid_mp4_paths_for_concat fs m
     = map (\<lambda>c. the (mp4_path c)) (filter (usable_clip fs) (sorted_manifest m))
   \<and> sorted (map clip_order (filter (usable_clip fs) (sorted_manifest m)))
   \<and> (mset m' = mset m \<and> distinct (map clip_order m) \<longrightarrow>
        valid_mp4_paths_for_concat fs m' = valid_mp4_paths_for_concat fs m)"
proof -
  have s: "sorted (map clip_order (filter (usable_clip fs) (sorted_manifest m)))"
    unfolding sorted_manifest_def by (rule sorted_filter) simp
  have p: "mset m' = mset m \<and> distinct (map clip_order m) \<longrightarrow>
        valid_mp4_paths_for_concat fs m' = valid_mp4_paths_for_concat fs m"
    using sort_key_perm [of m' m]
    by (simp add: valid_mp4_paths_for_concat_def sorted_manifest_def)
  from s p show ?thesis by (simp add: valid_mp4_paths_for_concat_def)
qed

theorem assembly_follows_clip_order_witness:
  "valid_mp4_paths_for_concat (\<lambda>p. Some (File ''x''))
     [\<lparr>entry_id = JInt 2, clip_order = 1, status = SUCCESS_MP4_DOWNLOADED,
        comfy_file_info = JNull, mp4_path = Some ''b.mp4''\<rparr>,
      \<lparr>entry_id = JInt 1, clip_order = 0, status = SUCCESS_MP4_DOWNLOADED,
        comfy_file_info = JNull, mp4_path = Some ''a.mp4''\<rparr>]
   = [''a.mp4'', ''b.mp4'']
   \<and> valid_mp4_paths_for_concat (\<lambda>p. Some (File ''x''))
     [\<lparr>entry_id = JInt 1, clip_order = 0, status = SUCCESS_MP4_DOWNLOADED,
        comfy_file_info = JNull, mp4_path = Some ''a.mp4''\<rparr>,
      \<lparr>entry_id = JInt 2, clip_order = 1, status = SUCCESS_MP4_DOWNLOADED,
        comfy_file_info = JNull, mp4_path = Some ''b.mp4''\<rparr>]
   = [''a.mp4'', ''b.mp4'']"
proof -
  let ?a = "\<lparr>entry_id = JInt 1, clip_order = 0, status = SUCCESS_MP4_DOWNLOADED,
        comfy_file_info = JNull, mp4_path = Some ''a.mp4''\<rparr>"
  let ?b = "\<lparr>entry_id = JInt 2, clip_order = 1, status = SUCCESS_MP4_DOWNLOADED,
        comfy_file_info = JNull, mp4_path = Some ''b.mp4''\<rparr>"
  let ?fs = "\<lambda>p::string. Some (File ''x'')"
  have inorder: "valid_mp4_paths_for_concat ?fs [?a, ?b] = [''a.mp4'', ''b.mp4'']"
    by (simp add: valid_mp4_paths_for_concat_def sorted_manifest_def usable_clip_def
        path_exists_def)
  have h: "mset [?b, ?a] = mset [?a, ?b] \<and> distinct (map clip_order [?a, ?b])"
    by simp
  from assembly_follows_clip_order [of ?fs "[?a, ?b]" "[?b, ?a]"] h
  have "valid_mp4_paths_for_concat ?fs [?b, ?a] = valid_mp4_paths_for_concat ?fs [?a, ?b]"
    by blast
  with inorder show ?thesis by simp
qed

section \<open>The heap: copies and edits leave the objects that were there\<close>

lemma extends_refl: "extends h h"
  by (simp add: extends_def)

lemma extends_trans: "extends h1 h2 \<Longrightarrow> extends h2 h3 \<Longrightarrow> extends h1 h3"
proof -
  assume a: "extends h1 h2" and b: "extends h2 h3"
  have "take (length h1) h3 = take (length h1) (take (length h2) h3)"
    using a by (simp add: extends_def min_def)
  also have "\<dots> = h1" using a b by (simp add: extends_def)
  finally show ?thesis using a b by (simp add: extends_def)
qed

lemma extends_append: "extends h (h @ xs)"
  by (simp add: extends_def)

lemma fresh_closed_append:
  "fresh_closed n0 h \<Longrightarrow> list_all (fresh_val n0) (obj_vals obj)
   \<Longrightarrow> fresh_closed n0 (h @ [obj])"
  by (auto simp: fresh_closed_def nth_append)

lemma fresh_val_leaf [simp]:
  "fresh_val n0 VNull" "fresh_val n0 (VBool b)" "fresh_val n0 (VInt i)"
  "fresh_val n0 (VFloat r)" "fresh_val n0 (VStr s)"
  "fresh_val n0 (VRef a) = (n0 \<le> a)"
  by (simp_all add: fresh_val_def)

lemma copy_frame:
  "(\<forall>r h'. copy_val n h v = (r, h') \<longrightarrow> n0 \<le> length h \<longrightarrow> fresh_closed n0 h \<longrightarrow>
      extends h h' \<and> fresh_closed n0 h' \<and> (\<forall>v'. r = Inr v' \<longrightarrow> fresh_val n0 v'))"
  "(\<forall>r h'. copy_vals n h vs = (r, h') \<longrightarrow> n0 \<le> length h \<longrightarrow> fresh_closed n0 h \<longrightarrow>
      extends h h' \<and> fresh_closed n0 h'
      \<and> (\<forall>vs'. r = Inr vs' \<longrightarrow> list_all (fresh_val n0) vs' \<and> length vs' = length vs))"
proof (induction n h v and n h vs rule: copy_val_copy_vals.induct)
  case (1 h a)
  show ?case by (simp add: extends_refl)
next
  case (2 n h a)
  show ?case
  proof (intro allI impI)
    fix r h'
    assume run: "copy_val (Suc n) h (VRef a) = (r, h')"
      and n0: "n0 \<le> length h" and fc: "fresh_closed n0 h"
    show "extends h h' \<and> fresh_closed n0 h' \<and> (\<forall>v'. r = Inr v' \<longrightarrow> fresh_val n0 v')"
    proof (cases "heap_get h a")
      case None
      with run fc show ?thesis by (auto simp: extends_refl)
    next
      case (Some obj)
      show ?thesis
      proof (cases obj)
        case (ODict flds)
        obtain r1 h1 where c: "copy_vals n h (map snd flds) = (r1, h1)"
          by (cases "copy_vals n h (map snd flds)")
        from "2.IH"(1) [OF Some ODict] c n0 fc
        have e: "extends h h1" and f: "fresh_closed n0 h1"
          and vs: "\<forall>vs'. r1 = Inr vs' \<longrightarrow> list_all (fresh_val n0) vs'
                 \<and> length vs' = length (map snd flds)"
          by blast+
        show ?thesis
        proof (cases r1)
          case (Inl e1)
          with run Some ODict c have "r = Inl e1" "h' = h1" by simp_all
          with e f show ?thesis by simp
        next
          case (Inr vs')
          with run Some ODict c have r: "r = Inr (VRef (length h1))"
            and h': "h' = h1 @ [ODict (zip (map fst flds) vs')]" by simp_all
          from vs Inr have la: "list_all (fresh_val n0) vs'" and len: "length vs' = length flds"
            by simp_all
          have "map snd (zip (map fst flds) vs') = vs'" using len by simp
          then have "fresh_closed n0 h'"
            unfolding h' using f la by (intro fresh_closed_append) simp_all
          moreover have "extends h h'"
            unfolding h' using e extends_append extends_trans by blast
          moreover have "n0 \<le> length h1" using e n0 by (simp add: extends_def)
          ultimately show ?thesis using r by simp
        qed
      next
        case (OList xs)
        obtain r1 h1 where c: "copy_vals n h xs = (r1, h1)"
          by (cases "copy_vals n h xs")
        from "2.IH"(2) [OF Some OList] c n0 fc
        have e: "extends h h1" and f: "fresh_closed n0 h1"
          and vs: "\<forall>vs'. r1 = Inr vs' \<longrightarrow> list_all (fresh_val n0) vs'
                 \<and> length vs' = length xs"
          by blast+
        show ?thesis
        proof (cases r1)
          case (Inl e1)
          with run Some OList c have "r = Inl e1" "h' = h1" by simp_all
          with e f show ?thesis by simp
        next
          case (Inr vs')
          with run Some OList c have r: "r = Inr (VRef (length h1))"
            and h': "h' = h1 @ [OList vs']" by simp_all
          from vs Inr have la: "list_all (fresh_val n0) vs'" by simp
          have "fresh_closed n0 h'"
            unfolding h' using f la by (intro fresh_closed_append) simp_all
          moreover have "extends h h'"
            unfolding h' using e extends_append extends_trans by blast
          moreover have "n0 \<le> length h1" using e n0 by (simp add: extends_def)
          ultimately show ?thesis using r by simp
        qed
      qed
    qed
  qed
next
  case (4 n h)
  show ?case by (simp add: extends_refl)
next
  case (5 n h v vs)
  show ?case
  proof (intro allI impI)
    fix r h'
    assume run: "copy_vals n h (v # vs) = (r, h')"
      and n0: "n0 \<le> length h" and fc: "fresh_closed n0 h"
    obtain r1 h1 where c1: "copy_val n h v = (r1, h1)" by (cases "copy_val n h v")
    from "5.IH"(1) c1 n0 fc have e1: "extends h h1" and f1: "fresh_closed n0 h1"
      and v1: "\<forall>v'. r1 = Inr v' \<longrightarrow> fresh_val n0 v'" by blast+
    show "extends h h' \<and> fresh_closed n0 h'
      \<and> (\<forall>vs'. r = Inr vs' \<longrightarrow> list_all (fresh_val n0) vs' \<and> length vs' = length (v # vs))"
    proof (cases r1)
      case (Inl e)
      with run c1 have "r = Inl e" "h' = h1" by simp_all
      with e1 f1 show ?thesis by simp
    next
      case (Inr v')
      obtain r2 h2 where c2: "copy_vals n h1 vs = (r2, h2)" by (cases "copy_vals n h1 vs")
      have n1: "n0 \<le> length h1" using e1 n0 by (simp add: extends_def)
      from "5.IH"(2) [OF c1 [symmetric] Inr] c2 n1 f1
      have e2: "extends h1 h2" and f2: "fresh_closed n0 h2"
        and v2: "\<forall>vs'. r2 = Inr vs' \<longrightarrow> list_all (fresh_val n0) vs' \<and> length vs' = length vs"
        by blast+
      have e: "extends h h2" using e1 e2 by (rule extends_trans)
      show ?thesis
      proof (cases r2)
        case (Inl e')
        with run c1 c2 Inr have "r = Inl e'" "h' = h2" by simp_all
        with e f2 show ?thesis by simp
      next
        case (Inr vs')
        with run c1 c2 \<open>r1 = Inr v'\<close> have "r = Inr (v' # vs')" "h' = h2" by simp_all
        with e f2 v1 v2 Inr \<open>r1 = Inr v'\<close> show ?thesis by simp
      qed
    qed
  qed
qed (simp_all add: extends_refl)


lemma extends_length: "extends h h' \<Longrightarrow> n0 \<le> length h \<Longrightarrow> n0 \<le> length h'"
  by (simp add: extends_def)

lemma alloc_frame:
  "(\<forall>v h'. alloc j h = (v, h') \<longrightarrow> n0 \<le> length h \<longrightarrow> fresh_closed n0 h \<longrightarrow>
      extends h h' \<and> fresh_closed n0 h' \<and> fresh_val n0 v)"
  "(\<forall>vs h'. alloc_list js h = (vs, h') \<longrightarrow> n0 \<le> length h \<longrightarrow> fresh_closed n0 h \<longrightarrow>
      extends h h' \<and> fresh_closed n0 h' \<and> list_all (fresh_val n0) vs)"
  "(\<forall>flds h'. alloc_fields kvs h = (flds, h') \<longrightarrow> n0 \<le> length h \<longrightarrow> fresh_closed n0 h \<longrightarrow>
      extends h h' \<and> fresh_closed n0 h' \<and> list_all (fresh_val n0) (map snd flds))"
proof (induction j h and js h and kvs h rule: alloc_alloc_list_alloc_fields.induct)
  case (6 xs h)
  show ?case
  proof (intro allI impI)
    fix v h'
    assume run: "alloc (JArr xs) h = (v, h')" and n0: "n0 \<le> length h"
      and fc: "fresh_closed n0 h"
    obtain vs h1 where a: "alloc_list xs h = (vs, h1)" by (cases "alloc_list xs h")
    from "6.IH" a n0 fc have e: "extends h h1" and f: "fresh_closed n0 h1"
      and l: "list_all (fresh_val n0) vs" by blast+
    from run a have v: "v = VRef (length h1)" and h': "h' = h1 @ [OList vs]" by simp_all
    have "extends h h'" unfolding h' using e extends_append extends_trans by blast
    moreover have "fresh_closed n0 h'"
      unfolding h' using f l by (intro fresh_closed_append) simp_all
    moreover have "n0 \<le> length h1" using e n0 by (rule extends_length)
    ultimately show "extends h h' \<and> fresh_closed n0 h' \<and> fresh_val n0 v"
      using v by simp
  qed
next
  case (7 kvs h)
  show ?case
  proof (intro allI impI)
    fix v h'
    assume run: "alloc (JObj kvs) h = (v, h')" and n0: "n0 \<le> length h"
      and fc: "fresh_closed n0 h"
    obtain flds h1 where a: "alloc_fields kvs h = (flds, h1)"
      by (cases "alloc_fields kvs h")
    from "7.IH" a n0 fc have e: "extends h h1" and f: "fresh_closed n0 h1"
      and l: "list_all (fresh_val n0) (map snd flds)" by blast+
    from run a have v: "v = VRef (length h1)" and h': "h' = h1 @ [ODict flds]"
      by simp_all
    have "extends h h'" unfolding h' using e extends_append extends_trans by blast
    moreover have "fresh_closed n0 h'"
      unfolding h' using f l by (intro fresh_closed_append) simp_all
    moreover have "n0 \<le> length h1" using e n0 by (rule extends_length)
    ultimately show "extends h h' \<and> fresh_closed n0 h' \<and> fresh_val n0 v"
      using v by simp
  qed
next
  case (9 x xs h)
  show ?case
  proof (intro allI impI)
    fix vs h'
    assume run: "alloc_list (x # xs) h = (vs, h')" and n0: "n0 \<le> length h"
      and fc: "fresh_closed n0 h"
    obtain v h1 where a1: "alloc x h = (v, h1)" by (cases "alloc x h")
    obtain vs2 h2 where a2: "alloc_list xs h1 = (vs2, h2)" by (cases "alloc_list xs h1")
    from "9.IH"(1) a1 n0 fc have e1: "extends h h1" and f1: "fresh_closed n0 h1"
      and v1: "fresh_val n0 v" by blast+
    have n1: "n0 \<le> length h1" using e1 n0 by (rule extends_length)
    from "9.IH"(2) [OF a1 [symmetric]] a2 n1 f1
    have e2: "extends h1 h2" and f2: "fresh_closed n0 h2"
      and v2: "list_all (fresh_val n0) vs2" by blast+
    from run a1 a2 have "vs = v # vs2" "h' = h2" by simp_all
    with e1 e2 f2 v1 v2 show "extends h h' \<and> fresh_closed n0 h' \<and> list_all (fresh_val n0) vs"
      using extends_trans by auto
  qed
next
  case (11 kv kvs h)
  show ?case
  proof (intro allI impI)
    fix flds h'
    assume run: "alloc_fields (kv # kvs) h = (flds, h')" and n0: "n0 \<le> length h"
      and fc: "fresh_closed n0 h"
    obtain v h1 where a1: "alloc (snd kv) h = (v, h1)" by (cases "alloc (snd kv) h")
    obtain fs2 h2 where a2: "alloc_fields kvs h1 = (fs2, h2)"
      by (cases "alloc_fields kvs h1")
    from "11.IH"(1) a1 n0 fc have e1: "extends h h1" and f1: "fresh_closed n0 h1"
      and v1: "fresh_val n0 v" by blast+
    have n1: "n0 \<le> length h1" using e1 n0 by (rule extends_length)
    from "11.IH"(2) [OF a1 [symmetric]] a2 n1 f1
    have e2: "extends h1 h2" and f2: "fresh_closed n0 h2"
      and v2: "list_all (fresh_val n0) (map snd fs2)" by blast+
    from run a1 a2 have "flds = (fst kv, v) # fs2" "h' = h2" by simp_all
    with e1 e2 f2 v1 v2
    show "extends h h' \<and> fresh_closed n0 h' \<and> list_all (fresh_val n0) (map snd flds)"
      using extends_trans by auto
  qed
qed (simp_all add: extends_refl)

lemma getitem_fresh:
  assumes "fresh_closed n0 h" and "fresh_val n0 v" and "v_getitem h v k = Inr x"
  shows "fresh_val n0 x"
proof -
  from assms(3) obtain a flds where v: "v = VRef a" and g: "heap_get h a = Some (ODict flds)"
    and m: "map_of flds k = Some x"
    by (auto simp: v_getitem_def split: pyval.splits option.splits pyobj.splits)
  from g have a: "a < length h" and obj: "h ! a = ODict flds"
    by (auto simp: heap_get_def split: if_splits)
  from assms(2) v have "n0 \<le> a" by simp
  with assms(1) a obj have "list_all (fresh_val n0) (map snd flds)"
    by (auto simp: fresh_closed_def)
  moreover from m have "x \<in> set (map snd flds)"
    by (metis map_of_SomeD image_eqI set_map snd_conv)
  ultimately show ?thesis by (auto simp: list_all_iff)
qed

lemma dict_set_vals:
  "set (map snd (dict_set k x flds)) \<subseteq> insert x (set (map snd flds))"
  by (induction flds) auto

lemma dict_set_keys:
  "map_of (dict_set k x flds) k' = (if k' = k then Some x else map_of flds k')"
  by (induction flds) auto

lemma setitem_kept:
  assumes "kept n0 h0 h" and "fresh_val n0 v" and "fresh_val n0 x"
    and "v_setitem h v k x = Inr h'"
  shows "kept n0 h0 h'"
proof -
  from assms(4) obtain a flds where v: "v = VRef a" and g: "heap_get h a = Some (ODict flds)"
    and h': "h' = h[a := ODict (dict_set k x flds)]"
    by (auto simp: v_setitem_def split: pyval.splits option.splits pyobj.splits)
  from g have a: "a < length h" and obj: "h ! a = ODict flds"
    by (auto simp: heap_get_def split: if_splits)
  from assms(2) v have n0a: "n0 \<le> a" by simp
  from assms(1) have k: "n0 \<le> length h" "take n0 h = take n0 h0" "fresh_closed n0 h"
    by (simp_all add: kept_def)
  have "list_all (fresh_val n0) (map snd flds)"
    using k(3) a obj n0a by (auto simp: fresh_closed_def)
  then have old: "\<And>y. y \<in> set (map snd flds) \<Longrightarrow> fresh_val n0 y"
    by (auto simp: list_all_iff)
  have "fresh_val n0 y" if "y \<in> set (map snd (dict_set k x flds))" for y
  proof -
    from that dict_set_vals [of k x flds] have "y = x \<or> y \<in> set (map snd flds)" by blast
    then show ?thesis using assms(3) old by blast
  qed
  then have new: "list_all (fresh_val n0) (map snd (dict_set k x flds))"
    unfolding list_all_iff by blast
  have "fresh_closed n0 h'"
    unfolding fresh_closed_def
  proof (intro allI impI)
    fix b assume b: "n0 \<le> b \<and> b < length h'"
    show "list_all (fresh_val n0) (obj_vals (h' ! b))"
    proof (cases "b = a")
      case True
      then show ?thesis using new a by (simp add: h')
    next
      case False
      then show ?thesis using k(3) b by (simp add: h' fresh_closed_def)
    qed
  qed
  moreover have "take n0 h' = take n0 h" using n0a by (simp add: h')
  ultimately show ?thesis using k by (simp add: kept_def h')
qed

lemma set_input_kept:
  assumes "kept n0 h0 h" and "fresh_val n0 w" and "fresh_val n0 x"
    and "set_input w node field x h = Inr h'"
  shows "kept n0 h0 h'"
proof -
  from assms(4) obtain nd inputs where
    g1: "v_getitem h w node = Inr nd" and g2: "v_getitem h nd ''inputs'' = Inr inputs"
    and s: "v_setitem h inputs field x = Inr h'"
    by (auto simp: set_input_def rbind_eq_Inr)
  have fc: "fresh_closed n0 h" using assms(1) by (simp add: kept_def)
  have "fresh_val n0 nd" using fc assms(2) g1 by (rule getitem_fresh)
  then have "fresh_val n0 inputs" using fc g2 getitem_fresh by blast
  then show ?thesis using assms(1,3) s setitem_kept by blast
qed


lemma kept_extends:
  assumes "kept n0 h0 h" and "extends h h'" and "fresh_closed n0 h'"
  shows "kept n0 h0 h'"
proof -
  from assms(1) have n: "n0 \<le> length h" and t: "take n0 h = take n0 h0"
    by (simp_all add: kept_def)
  have "take n0 h' = take n0 (take (length h) h')" using n by (simp add: min_def)
  also have "\<dots> = take n0 h" using assms(2) by (simp add: extends_def)
  finally have "take n0 h' = take n0 h0" using t by simp
  moreover have "n0 \<le> length h'" using assms(2) n by (simp add: extends_def)
  ultimately show ?thesis using assms(3) by (simp add: kept_def)
qed

lemma alloc_kept:
  assumes "kept n0 h0 h" and "alloc j h = (v, h')"
  shows "kept n0 h0 h' \<and> fresh_val n0 v"
proof -
  from assms(1) have "n0 \<le> length h" "fresh_closed n0 h" by (simp_all add: kept_def)
  with alloc_frame(1) [of j h n0] assms(2)
  have "extends h h'" "fresh_closed n0 h'" "fresh_val n0 v" by blast+
  with assms(1) show ?thesis using kept_extends by blast
qed

lemma latent_fresh:
  assumes "kept n0 h0 h" and "fresh_val n0 w"
    and "rbind (v_getitem h w node) (\<lambda>nd. v_getitem h nd ''inputs'') = Inr li"
  shows "fresh_val n0 li"
proof -
  from assms(3) obtain nd where g1: "v_getitem h w node = Inr nd"
    and g2: "v_getitem h nd ''inputs'' = Inr li"
    by (auto simp: rbind_eq_Inr)
  have fc: "fresh_closed n0 h" using assms(1) by (simp add: kept_def)
  have "fresh_val n0 nd" using fc assms(2) g1 by (rule getitem_fresh)
  then show ?thesis using fc g2 getitem_fresh by blast
qed

lemma set_int_kept:
  assumes "kept n0 h0 h" and "fresh_val n0 li"
    and "rbind (py_int j) (\<lambda>n. v_setitem h li field (VInt n)) = Inr h'"
  shows "kept n0 h0 h'"
proof -
  from assms(3) obtain n where "v_setitem h li field (VInt n) = Inr h'"
    by (auto simp: rbind_eq_Inr)
  with assms(1,2) show ?thesis using setitem_kept [of n0 h0 h li "VInt n"] by simp
qed

lemma edit_workflow_kept:
  assumes "kept n0 h0 h" and "fresh_val n0 w"
    and "edit_workflow sd p pre f wd ht w h = (r, h')"
  shows "kept n0 h0 h'"
proof -
  note ew = edit_workflow_def
  obtain tv ha where al: "alloc p h = (tv, ha)" by (cases "alloc p h")
  from alloc_kept [OF assms(1) al] have ka: "kept n0 h0 ha" and ft: "fresh_val n0 tv"
    by simp_all
  show ?thesis
  proof (cases "set_input w POSITIVE_PROMPT_NODE_ID ''text'' tv ha")
    case (Inl e)
    with assms(3) al have "h' = ha" by (simp add: ew)
    with ka show ?thesis by simp
  next
    case s1: (Inr h1)
    have k1: "kept n0 h0 h1" using ka assms(2) ft s1 by (rule set_input_kept)
    show ?thesis
    proof (cases "set_input w KSAMPLER_NODE_ID ''seed'' (VInt sd) h1")
      case (Inl e)
      with assms(3) al s1 have "h' = h1" by (simp add: ew)
      with k1 show ?thesis by simp
    next
      case s2: (Inr h2)
      have k2: "kept n0 h0 h2" using k1 assms(2) _ s2 by (rule set_input_kept) simp
      show ?thesis
      proof (cases "rbind (v_getitem h2 w EMPTY_LATENT_VIDEO_NODE_ID)
                      (\<lambda>nd. v_getitem h2 nd ''inputs'')")
        case (Inl e)
        with assms(3) al s1 s2 have "h' = h2" by (simp add: ew)
        with k2 show ?thesis by simp
      next
        case s3: (Inr li)
        have fl: "fresh_val n0 li" using k2 assms(2) s3 by (rule latent_fresh)
        show ?thesis
        proof (cases "rbind (py_int f) (\<lambda>n. v_setitem h2 li ''length'' (VInt n))")
          case (Inl e)
          with assms(3) al s1 s2 s3 have "h' = h2" by (simp add: ew)
          with k2 show ?thesis by simp
        next
          case s4: (Inr h3)
          have k3: "kept n0 h0 h3" using k2 fl s4 by (rule set_int_kept)
          show ?thesis
          proof (cases "rbind (py_int wd) (\<lambda>n. v_setitem h3 li ''width'' (VInt n))")
            case (Inl e)
            with assms(3) al s1 s2 s3 s4 have "h' = h3" by (simp add: ew)
            with k3 show ?thesis by simp
          next
            case s5: (Inr h4)
            have k4: "kept n0 h0 h4" using k3 fl s5 by (rule set_int_kept)
            show ?thesis
            proof (cases "rbind (py_int ht) (\<lambda>n. v_setitem h4 li ''height'' (VInt n))")
              case (Inl e)
              with assms(3) al s1 s2 s3 s4 s5 have "h' = h4" by (simp add: ew)
              with k4 show ?thesis by simp
            next
              case s6: (Inr h5)
              have k5: "kept n0 h0 h5" using k4 fl s6 by (rule set_int_kept)
              show ?thesis
              proof (cases "v_contains SAVE_MP4_NODE_ID h5 w")
                case (Inl e)
                with assms(3) al s1 s2 s3 s4 s5 s6 have "h' = h5" by (simp add: ew)
                with k5 show ?thesis by simp
              next
                case s7: (Inr b)
                show ?thesis
                proof (cases b)
                  case False
                  with assms(3) al s1 s2 s3 s4 s5 s6 s7 have "h' = h5" by (simp add: ew)
                  with k5 show ?thesis by simp
                next
                  case True
                  show ?thesis
                  proof (cases "set_input w SAVE_MP4_NODE_ID ''filename_prefix'' (VStr pre) h5")
                    case (Inl e)
                    with assms(3) al s1 s2 s3 s4 s5 s6 s7 True have "h' = h5"
                      by (simp add: ew)
                    with k5 show ?thesis by simp
                  next
                    case s8: (Inr h6)
                    have k6: "kept n0 h0 h6"
                      using k5 assms(2) _ s8 by (rule set_input_kept) simp
                    from assms(3) al s1 s2 s3 s4 s5 s6 s7 True s8 have "h' = h6"
                      by (simp add: ew)
                    with k6 show ?thesis by simp
                  qed
                qed
              qed
            qed
          qed
        qed
      qed
    qed
  qed
qed

lemma fresh_closed_self: "fresh_closed (length h) h"
  by (auto simp: fresh_closed_def)

lemma deepcopy_kept:
  assumes "deepcopy h v = (r, h')"
  shows "kept (length h) h h' \<and> (\<forall>w. r = Inr w \<longrightarrow> fresh_val (length h) w \<or> w = v)"
proof -
  have fc: "fresh_closed (length h) h" by (rule fresh_closed_self)
  from copy_frame(1) [of "length h" h v "length h"] assms fc
  have e: "extends h h'" and f: "fresh_closed (length h) h'"
    and w: "\<forall>w. r = Inr w \<longrightarrow> fresh_val (length h) w"
    by (simp_all add: deepcopy_def)
  have "kept (length h) h h" using fc by (simp add: kept_def)
  then have "kept (length h) h h'" using e f by (rule kept_extends)
  with w show ?thesis by blast
qed

lemma run_frame:
  assumes "run_comfyui_video_generation env p base pre f wd ht h = (r, h', sent)"
  shows "kept (length h) h h'"
proof (cases "v_truthy h base")
  case False
  with assms have "h' = h" by (simp add: run_comfyui_video_generation_def)
  then show ?thesis by (simp add: kept_def fresh_closed_self)
next
  case True
  obtain r1 h1 where dc: "deepcopy h base = (r1, h1)" by (cases "deepcopy h base")
  from deepcopy_kept [OF dc] have k1: "kept (length h) h h1"
    and fw: "\<forall>w. r1 = Inr w \<longrightarrow> fresh_val (length h) w \<or> w = base" by blast+
  show ?thesis
  proof (cases r1)
    case (Inl e)
    with assms True dc have "h' = h1" by (simp add: run_comfyui_video_generation_def)
    with k1 show ?thesis by simp
  next
    case (Inr w)
    obtain r2 h2 where ed: "edit_workflow (job_seed env) p pre f wd ht w h1 = (r2, h2)"
      by (cases "edit_workflow (job_seed env) p pre f wd ht w h1")
    from copy_frame(1) [of "length h" h base "length h"] dc Inr
    have fw': "fresh_val (length h) w" by (simp add: deepcopy_def fresh_closed_self)
    have k2: "kept (length h) h h2" using k1 fw' ed by (rule edit_workflow_kept)
    from assms True dc Inr ed have "h' = h2"
      by (auto simp: run_comfyui_video_generation_def split: sum.splits bool.splits prod.splits)
    with k2 show ?thesis by simp
  qed
qed

section \<open>Properties of the job submission\<close>

text \<open>
  C10. Whatever a call of \<open>run_comfyui_video_generation\<close> returns or raises, every
  object that was in the heap when it was called, the base workflow and all it refers
  to among them, is afterwards what it was before: the prompt text, the seed, the frame
  count, the width, the height and the file name prefix are written into objects that
  \<open>copy.deepcopy\<close> has created. So the next job starts from the same template.
\<close>

theorem base_workflow_unmodified:
  assumes "run_comfyui_video_generation env video_prompt_text base_workflow
             output_filename_prefix video_frames video_width video_height h = (r, h', sent)"
  shows "length h \<le> length h' \<and> take (length h) h' = h
       \<and> (\<forall>a < length h. heap_get h' a = heap_get h a)"
proof -
  from run_frame [OF assms] have n: "length h \<le> length h'"
    and t: "take (length h) h' = take (length h) h" by (simp_all add: kept_def)
  have "heap_get h' a = heap_get h a" if "a < length h" for a
  proof -
    have "h' ! a = take (length h) h' ! a" using that by simp
    also have "\<dots> = h ! a" using t by simp
    finally show ?thesis using that n by (simp add: heap_get_def)
  qed
  with n t show ?thesis by simp
qed

theorem base_workflow_unmodified_witness:
  "take (length sample_template)
        (fst (snd (run_comfyui_video_generation (sample_job 0) (JStr ''a cat'') (VRef 8)
                     ''narrativegen_clip_0001_'' (JInt 65) (JInt 832) (JInt 480)
                     sample_template)))
     = sample_template
   \<and> snd (snd (run_comfyui_video_generation (sample_job 0) (JStr ''a cat'') (VRef 8)
                     ''narrativegen_clip_0001_'' (JInt 65) (JInt 832) (JInt 480)
                     sample_template))
     = [JObj [(''6'', JObj [(''inputs'', JObj [(''text'', JStr ''a cat'')])]),
              (''3'', JObj [(''inputs'', JObj [(''seed'', JInt 7)])]),
              (''40'', JObj [(''inputs'', JObj [(''length'', JInt 65), (''width'', JInt 832),
                                               (''height'', JInt 480)])]),
              (''52'', JObj [(''inputs'',
                  JObj [(''filename_prefix'', JStr ''narrativegen_clip_0001_'')])])]]
   \<and> fst (run_comfyui_video_generation (sample_job 0) (JStr ''a cat'') (VRef 8)
                     ''narrativegen_clip_0001_'' (JInt 65) (JInt 832) (JInt 480)
                     sample_template)
     = Inr (GenResult SUCCESS (JObj [(''filename'', JStr ''clip.mp4''),
                                    (''type'', JStr ''output''), (''subfolder'', JStr [])]))
   \<and> dump 9 sample_template (VRef 8)
     = Inr (JObj [(''6'', JObj [(''inputs'', JObj [(''text'', JStr [])])]),
                  (''3'', JObj [(''inputs'', JObj [(''seed'', JInt 0)])]),
                  (''40'', JObj [(''inputs'', JObj [(''length'', JInt 1)])]),
                  (''52'', JObj [(''inputs'', JObj [])])])"
proof -
  let ?run = "run_comfyui_video_generation (sample_job 0) (JStr ''a cat'') (VRef 8)
                     ''narrativegen_clip_0001_'' (JInt 65) (JInt 832) (JInt 480)
                     sample_template"
  have "?run = (fst ?run, fst (snd ?run), snd (snd ?run))" by simp
  from base_workflow_unmodified [OF this]
  have kept: "take (length sample_template) (fst (snd ?run)) = sample_template" by blast
  have sent: "snd (snd ?run)
     = [JObj [(''6'', JObj [(''inputs'', JObj [(''text'', JStr ''a cat'')])]),
              (''3'', JObj [(''inputs'', JObj [(''seed'', JInt 7)])]),
              (''40'', JObj [(''inputs'', JObj [(''length'', JInt 65), (''width'', JInt 832),
                                               (''height'', JInt 480)])]),
              (''52'', JObj [(''inputs'',
                  JObj [(''filename_prefix'', JStr ''narrativegen_clip_0001_'')])])]]"
    by code_simp
  have res: "fst ?run
     = Inr (GenResult SUCCESS (JObj [(''filename'', JStr ''clip.mp4''),
                                    (''type'', JStr ''output''), (''subfolder'', JStr [])]))"
    by code_simp
  have base: "dump 9 sample_template (VRef 8)
     = Inr (JObj [(''6'', JObj [(''inputs'', JObj [(''text'', JStr [])])]),
                  (''3'', JObj [(''inputs'', JObj [(''seed'', JInt 0)])]),
                  (''40'', JObj [(''inputs'', JObj [(''length'', JInt 1)])]),
                  (''52'', JObj [(''inputs'', JObj [])])])"
    by code_simp
  from kept sent res base show ?thesis by blast
qed

section \<open>Properties of the stage 2 loop\<close>

lemma poll_loop_status:
  "poll_loop pq pid hist a n = Inr g \<Longrightarrow> result_status g \<noteq> SUCCESS_MP4_DOWNLOADED"
proof (induction n arbitrary: a)
  case 0
  then show ?case by auto
next
  case (Suc n)
  show ?case
  proof (cases "poll_step pq pid a (hist a)")
    case (Inl e)
    with Suc.prems show ?thesis by simp
  next
    case (Inr r)
    show ?thesis
    proof (cases r)
      case None
      with Inr Suc.prems have "poll_loop pq pid hist (Suc a) n = Inr g" by simp
      then show ?thesis by (rule Suc.IH)
    next
      case (Some g')
      with Inr Suc.prems have "g = g'" by simp
      with Inr Some show ?thesis using poll_step_status [of pq pid a "hist a" g] by auto
    qed
  qed
qed

lemma poll_queued_status:
  "poll_queued pq q hist = Inr g \<Longrightarrow> result_status g \<noteq> SUCCESS_MP4_DOWNLOADED"
  by (auto simp: poll_queued_def rbind_eq_Inr split: option.splits if_splits
      dest: poll_loop_status)

lemma run_status:
  assumes "run_comfyui_video_generation env p base pre f wd ht h = (Inr g, h', sent)"
  shows "result_status g \<noteq> SUCCESS_MP4_DOWNLOADED"
  using assms
  by (auto simp: run_comfyui_video_generation_def
      split: if_splits prod.splits sum.splits bool.splits dest: poll_queued_status)

lemma store_clip_path:
  assumes "store_clip env i filename rf sf ft fs = (s, p, ok, fs')"
  shows "(p \<noteq> None) = (s = SUCCESS_MP4_DOWNLOADED)"
proof -
  obtain b fs2 where d: "download_comfy_output (views env i) filename sf ft
                  (path_join (VIDEO_MP4_SUBDIR env) rf) fs = (b, fs2)"
    by (cases "download_comfy_output (views env i) filename sf ft
                  (path_join (VIDEO_MP4_SUBDIR env) rf) fs")
  show ?thesis using assms d by (cases b) (auto simp: store_clip_def Let_def)
qed

lemma fetch_clip_path:
  assumes "fetch_clip env i d fs = Inr (s, p, ok, fs')"
  shows "(p \<noteq> None) = (s = SUCCESS_MP4_DOWNLOADED)"
  using assms
  by (auto simp: fetch_clip_def rbind_eq_Inr split: if_splits dest: store_clip_path)

lemma stage2_item_manifest:
  assumes "stage2_item env base i item st = (e, st')"
  shows "clips_manifest st' = clips_manifest st
       \<or> (\<exists>c. clips_manifest st' = clips_manifest st @ [c] \<and> path_iff_downloaded c
              \<and> clip_order c = i \<and> e = None)"
  using assms
  by (auto simp: stage2_item_def Let_def path_iff_downloaded_def
      split: sum.splits prod.splits if_splits dest: run_status fetch_clip_path)

lemma stage2_loop_manifest:
  assumes "stage2_loop env base i items st = (e, st')"
    and "list_all path_iff_downloaded (clips_manifest st)"
  shows "list_all path_iff_downloaded (clips_manifest st')"
  using assms
proof (induction items arbitrary: i st)
  case Nil
  then show ?case by simp
next
  case (Cons item items)
  obtain e1 st1 where it: "stage2_item env base i item st = (e1, st1)"
    by (cases "stage2_item env base i item st")
  from stage2_item_manifest [OF it] Cons.prems(2)
  have ok1: "list_all path_iff_downloaded (clips_manifest st1)" by auto
  show ?case
  proof (cases e1)
    case None
    with Cons.prems(1) it have "stage2_loop env base (Suc i) items st1 = (e, st')" by simp
    then show ?thesis using ok1 by (rule Cons.IH)
  next
    case (Some x)
    with Cons.prems(1) it have "st' = st1" by simp
    with ok1 show ?thesis by simp
  qed
qed

text \<open>
  C9. Every entry that stage 2 appends to the manifest has a local path exactly when its
  status is \<open>SUCCESS_MP4_DOWNLOADED\<close>; with any other status (skipped, queue failed,
  timeout, no output, download failed, ...) the path is \<open>None\<close>. This holds for the
  manifest as the loop leaves it, also when an exception ends the loop early.
\<close>

theorem manifest_path_iff_downloaded:
  assumes "stage2 env base_workflow content_items h fs = (e, st)"
  shows "\<forall>c \<in> set (clips_manifest st).
           (mp4_path c \<noteq> None) = (status c = SUCCESS_MP4_DOWNLOADED)"
proof -
  from assms have "list_all path_iff_downloaded (clips_manifest st)"
    unfolding stage2_def by (rule stage2_loop_manifest) simp
  then show ?thesis by (simp add: list_all_iff path_iff_downloaded_def)
qed

theorem manifest_path_iff_downloaded_witness:
  "list_all (\<lambda>c. (mp4_path c \<noteq> None) = (status c = SUCCESS_MP4_DOWNLOADED))
     (clips_manifest (snd (stage2 sample_environment (VRef 8) sample_items sample_template
                             (\<lambda>p. None))))
   \<and> map (\<lambda>c. (status c, mp4_path c))
       (clips_manifest (snd (stage2 sample_environment (VRef 8) sample_items sample_template
                             (\<lambda>p. None))))
     = [(SUCCESS_MP4_DOWNLOADED, Some ''/home/u/video_outputs/mp4_clips/clip.mp4''),
        (SKIPPED_NO_PROMPT, None),
        (ERROR_MP4_DOWNLOAD_FAILED, None),
        (ERROR_QUEUE_FAILED, None)]"
proof -
  let ?run = "stage2 sample_environment (VRef 8) sample_items sample_template (\<lambda>p. None)"
  have "?run = (fst ?run, snd ?run)" by simp
  from manifest_path_iff_downloaded [OF this]
  have inv: "list_all (\<lambda>c. (mp4_path c \<noteq> None) = (status c = SUCCESS_MP4_DOWNLOADED))
     (clips_manifest (snd ?run))"
    by (simp add: list_all_iff)
  have ev: "map (\<lambda>c. (status c, mp4_path c)) (clips_manifest (snd ?run))
     = [(SUCCESS_MP4_DOWNLOADED, Some ''/home/u/video_outputs/mp4_clips/clip.mp4''),
        (SKIPPED_NO_PROMPT, None),
        (ERROR_MP4_DOWNLOAD_FAILED, None),
        (ERROR_QUEUE_FAILED, None)]"
    by code_simp
  from inv ev show ?thesis by blast
qed

text \<open>
  C4 (the code departs from the claim). The claim is that a save node missing from the
  template is fatal for the whole run: once it is detected no further content item is
  submitted, unlike a failure of one item, which is recorded while the loop goes on.
  The function prints \<open>FATAL ERROR in workflow\<close> and returns the status
  \<open>ERROR_SAVE_MP4_NODE_MISSING_IN_WORKFLOW\<close>, and the loop treats that status as it
  treats every other failure: with the template that lacks node \<open>52\<close> and the four
  sample items, the loop ends without an exception, with one manifest entry for each
  item, so every item with a prompt was handed to the function again after the first
  detection. (No workflow reaches the server: each call stops at the same test.)
\<close>

theorem missing_save_node_does_not_stop_the_loop:
  "fst (stage2 sample_environment (VRef 6) sample_items template_without_save_node
          (\<lambda>p. None)) = None
   \<and> map (\<lambda>c. (clip_order c, status c))
       (clips_manifest (snd (stage2 sample_environment (VRef 6) sample_items
                               template_without_save_node (\<lambda>p. None))))
     = [(0, ERROR_SAVE_MP4_NODE_MISSING_IN_WORKFLOW),
        (1, SKIPPED_NO_PROMPT),
        (2, ERROR_SAVE_MP4_NODE_MISSING_IN_WORKFLOW),
        (3, ERROR_SAVE_MP4_NODE_MISSING_IN_WORKFLOW)]
   \<and> requests (snd (stage2 sample_environment (VRef 6) sample_items
                       template_without_save_node (\<lambda>p. None))) = []"
proof -
  let ?run = "stage2 sample_environment (VRef 6) sample_items template_without_save_node
          (\<lambda>p. None)"
  have a: "fst ?run = None" by code_simp
  have b: "map (\<lambda>c. (clip_order c, status c)) (clips_manifest (snd ?run))
     = [(0, ERROR_SAVE_MP4_NODE_MISSING_IN_WORKFLOW),
        (1, SKIPPED_NO_PROMPT),
        (2, ERROR_SAVE_MP4_NODE_MISSING_IN_WORKFLOW),
        (3, ERROR_SAVE_MP4_NODE_MISSING_IN_WORKFLOW)]"
    by code_simp
  have c: "requests (snd ?run) = []" by code_simp
  from a b c show ?thesis by blast
qed

end
